theory Spec2Isabelle
  imports Complex_Main "HOL-Library.Char_ord" "HOL-Library.List_Lexorder"
begin

section \<open>Person detection in videos: the program\<close>

text \<open>
  The repository has four modules: \<^verbatim>\<open>detector.py\<close> (the YOLO wrapper),
  \<^verbatim>\<open>draw.py\<close> (annotation of a frame), \<^verbatim>\<open>video_io.py\<close> (capture and writer) and
  \<^verbatim>\<open>main.py\<close> (the frame loop, the batch driver and the metrics export).

  Conventions of the embedding.
  \<^item> A Python \<^verbatim>\<open>float\<close> is read as the real number it denotes (no NaN, no infinity).
    Where a float result decides a discrete outcome, the rounding of the operation is
    modelled: the division in \<^verbatim>\<open>_adjust_imgsz_to_stride\<close>, whose result is turned back into an
    \<^verbatim>\<open>int\<close>, and the subtractions in \<^verbatim>\<open>_scales_for_bbox\<close>, whose results select the scale.
    The float-valued metrics are read as the real quotients they round.
  \<^item> A Python \<^verbatim>\<open>int\<close> is an \<open>int\<close>, a \<^verbatim>\<open>str\<close> and a \<^verbatim>\<open>Path\<close> are a \<open>string\<close>.
  \<^item> An exception is a value of type \<open>error\<close>; a function that can raise returns a sum
    with \<open>Inl\<close> for the exception.
  \<^item> What OpenCV, ultralytics, torch, the clock and the file system answer is an argument of
    the function that asks (a record of the answers), never a fixed choice.
  \<^item> Console output (\<^verbatim>\<open>print\<close>, \<^verbatim>\<open>_print_progress\<close>) is not modelled.
\<close>

datatype error =
    FileNotFoundError string
  | ValueError string
  | OverflowError string
  | BackendError string

text \<open>\<open>BackendError\<close> stands for whatever an external library call raises.\<close>

subsection \<open>Strings\<close>

text \<open>\<^verbatim>\<open>str.lower\<close>, on ASCII letters.\<close>

definition lower_char :: "char \<Rightarrow> char" where
  "lower_char c =
     (case map_of (zip ''ABCDEFGHIJKLMNOPQRSTUVWXYZ'' ''abcdefghijklmnopqrstuvwxyz'') c of
        Some l \<Rightarrow> l
      | None \<Rightarrow> c)"

definition lower :: "string \<Rightarrow> string" where
  "lower s = map lower_char s"

text \<open>\<^verbatim>\<open>str.rfind\<close> for one character: the highest index where it stands, or \<open>-1\<close>.\<close>

definition rfind :: "string \<Rightarrow> char \<Rightarrow> int" where
  "rfind s c =
     (if c \<in> set s then int (length s) - 1 - int (length (takeWhile (\<lambda>x. x \<noteq> c) (rev s)))
      else - 1)"

text \<open>
  \<^verbatim>\<open>PurePath.suffix\<close> of a final path component:
  \<^verbatim>\<open>i = name.rfind('.'); return name[i:] if 0 < i < len(name) - 1 else ''\<close>.
\<close>

definition path_suffix :: "string \<Rightarrow> string" where
  "path_suffix nm =
     (let i = rfind nm CHR ''.''
      in if 0 < i \<and> i < int (length nm) - 1 then drop (nat i) nm else [])"

text \<open>\<^verbatim>\<open>directory / name\<close>.\<close>

definition path_join :: "string \<Rightarrow> string \<Rightarrow> string" where
  "path_join directory nm = directory @ ''/'' @ nm"

text \<open>\<^verbatim>\<open>int(x)\<close> of a float: truncation towards zero.\<close>

definition py_int :: "real \<Rightarrow> int" where
  "py_int x = (if 0 \<le> x then \<lfloor>x\<rfloor> else \<lceil>x\<rceil>)"

subsection \<open>Binary64 arithmetic\<close>

text \<open>\<^verbatim>\<open>int.bit_length\<close> of a natural number.\<close>

fun bit_length :: "nat \<Rightarrow> nat" where
  "bit_length n = (if n = 0 then 0 else Suc (bit_length (n div 2)))"

declare bit_length.simps [simp del]

text \<open>The nearest integer of a real, a tie going to the even one.\<close>

definition round_half_even :: "real \<Rightarrow> int" where
  "round_half_even x =
     (let f = \<lfloor>x\<rfloor>;
          r = x - real_of_int f
      in if r < 1 / 2 then f
         else if 1 / 2 < r then f + 1
         else if even f then f
         else f + 1)"

text \<open>
  The binary exponent of a real other than 0: the \<open>e\<close> with \<open>2 ^ e \<le> \<bar>x\<bar> < 2 ^ (e + 1)\<close>.
\<close>

definition float_exponent :: "real \<Rightarrow> int" where
  "float_exponent x =
     (let a = \<bar>x\<bar>
      in if 1 \<le> a then int (bit_length (nat \<lfloor>a\<rfloor>)) - 1
         else - int (bit_length (nat (\<lceil>1 / a\<rceil> - 1))))"

text \<open>\<open>2\<close> to an integer power.\<close>

definition pow2 :: "int \<Rightarrow> real" where
  "pow2 k = (if 0 \<le> k then 2 ^ nat k else 1 / 2 ^ nat (- k))"

text \<open>
  The binary64 float nearest to a real, ties to the even significand: the real is rounded to
  a multiple of the unit in the last place of its binade, 52 binary places below its
  exponent, and for a subnormal \<open>2 ^ - 1074\<close>. The exponent has no upper bound here: where
  Python's result is \<^verbatim>\<open>inf\<close>, this one is a real of at least \<open>2 ^ 1024\<close>.
\<close>

definition round_binary64 :: "real \<Rightarrow> real" where
  "round_binary64 x =
     (if x = 0 then 0
      else
        let e = max (float_exponent x) (- 1022);
            ulp = pow2 (e - 52)
        in real_of_int (round_half_even (x / ulp)) * ulp)"

text \<open>\<^verbatim>\<open>x - y\<close> on two floats: the float nearest to the difference.\<close>

definition fsub :: "real \<Rightarrow> real \<Rightarrow> real" where
  "fsub x y = round_binary64 (x - y)"

subsection \<open>detector.py\<close>

type_synonym bbox = "real \<times> real \<times> real \<times> real"

record Detection =
  bbox :: bbox
  confidence :: real
  class_name :: string

text \<open>
  \<^verbatim>\<open>Detector._resolve_person_class_id\<close>: the first class of the model's \<^verbatim>\<open>names\<close> dictionary
  whose name is "person" in any letter case.
\<close>

definition resolve_person_class_id :: "(int \<times> string) list \<Rightarrow> error + int" where
  "resolve_person_class_id names =
     (case find (\<lambda>(class_id, nm). lower nm = ''person'') names of
        Some (class_id, nm) \<Rightarrow> Inr class_id
      | None \<Rightarrow>
          Inl (ValueError (''The loaded model does not contain a '' @ [CHR 0x27] @ ''person''
                 @ [CHR 0x27] @ '' class.'')))"

text \<open>
  \<^verbatim>\<open>Detector.__init__\<close>: \<^verbatim>\<open>YOLO(model_path)\<close> either raises or gives a model with its class
  names; the result is the id of the person class.
\<close>

definition Detector_init :: "error + (int \<times> string) list \<Rightarrow> error + int" where
  "Detector_init yolo =
     (case yolo of
        Inl e \<Rightarrow> Inl e
      | Inr names \<Rightarrow> resolve_person_class_id names)"

subsection \<open>draw.py\<close>

type_synonym color = "int \<times> int \<times> int"

definition BOX_COLOR :: color where
  "BOX_COLOR = (46, 204, 113)"

definition TEXT_COLOR :: color where
  "TEXT_COLOR = (20, 20, 20)"

text \<open>\<^verbatim>\<open>cv2.FILLED\<close>.\<close>

definition FILLED :: int where
  "FILLED = - 1"

record DrawScale =
  text_scale :: real
  text_thickness :: int
  box_thickness :: int
  padding :: int

text \<open>
  \<^verbatim>\<open>_scales_for_bbox\<close>. The two differences are float subtractions, and \<open>ref\<close> is compared
  with the thresholds as computed. \<^verbatim>\<open>max\<close> and \<^verbatim>\<open>min\<close> return one of their arguments, and an
  overflowing difference is above both thresholds as \<^verbatim>\<open>inf\<close> is.
\<close>

definition scales_for_bbox :: "bbox \<Rightarrow> DrawScale" where
  "scales_for_bbox b =
     (case b of (b0, b1, b2, b3) \<Rightarrow>
        let w = max 1 (fsub b2 b0);
            h = max 1 (fsub b3 b1);
            ref = min w h
        in if ref < 60 then
             \<lparr>text_scale = 0.40, text_thickness = 1, box_thickness = 1, padding = 2\<rparr>
           else if ref < 150 then
             \<lparr>text_scale = 0.55, text_thickness = 1, box_thickness = 2, padding = 4\<rparr>
           else
             \<lparr>text_scale = 0.75, text_thickness = 2, box_thickness = 3, padding = 6\<rparr>)"

definition as_int_tuple :: "bbox \<Rightarrow> int \<times> int \<times> int \<times> int" where
  "as_int_tuple b = (case b of (b0, b1, b2, b3) \<Rightarrow> (py_int b0, py_int b1, py_int b2, py_int b3))"

text \<open>
  The drawing primitives. A frame is a value of an arbitrary type \<open>'f\<close>. The OpenCV calls
  \<^verbatim>\<open>cv2.rectangle(img, pt1, pt2, color, thickness, cv2.LINE_AA)\<close> and
  \<^verbatim>\<open>cv2.putText(img, text, org, FONT, scale, color, thickness, cv2.LINE_AA)\<close> change the array
  they are given in place and nothing else; each is a function from the old contents of that
  array to the new ones. \<^verbatim>\<open>cv2.getTextSize(text, FONT, scale, thickness)\<close> returns
  \<open>((width, height), baseline)\<close>. \<open>format_2f\<close> is the format specification \<^verbatim>\<open>:.2f\<close>.
\<close>

record 'f draw_env =
  rectangle :: "'f \<Rightarrow> int \<times> int \<Rightarrow> int \<times> int \<Rightarrow> color \<Rightarrow> int \<Rightarrow> 'f"
  putText :: "'f \<Rightarrow> string \<Rightarrow> int \<times> int \<Rightarrow> real \<Rightarrow> color \<Rightarrow> int \<Rightarrow> 'f"
  getTextSize :: "string \<Rightarrow> real \<Rightarrow> int \<Rightarrow> (int \<times> int) \<times> int"
  format_2f :: "real \<Rightarrow> string"

text \<open>
  The arrays live in a store, a list of frames; an array is named by its index. The functions
  below take the store and return the store after the call.
\<close>

definition draw_label ::
  "'f draw_env \<Rightarrow> nat \<Rightarrow> int \<Rightarrow> int \<Rightarrow> string \<Rightarrow> real \<Rightarrow> int \<Rightarrow> int \<Rightarrow> 'f list \<Rightarrow> 'f list" where
  "draw_label cv canvas x1 y1 txt tscale tthickness pad st =
     (case getTextSize cv txt tscale tthickness of
        ((text_width, text_height), baseline) \<Rightarrow>
          let y_top = max (y1 - text_height - baseline - 2 * pad) 0;
              x_end = x1 + text_width + 2 * pad;
              y_end = y_top + text_height + baseline + 2 * pad;
              st1 = st[canvas := rectangle cv (st ! canvas) (x1, y_top) (x_end, y_end)
                                   BOX_COLOR FILLED];
              text_org = (x1 + pad, y_end - pad - baseline div 2)
          in st1[canvas := putText cv (st1 ! canvas) txt text_org tscale TEXT_COLOR tthickness])"

text \<open>The body of the loop of \<^verbatim>\<open>draw_detections\<close>, for one detection.\<close>

definition draw_detection :: "'f draw_env \<Rightarrow> nat \<Rightarrow> Detection \<Rightarrow> 'f list \<Rightarrow> 'f list" where
  "draw_detection cv annotated detection st =
     (let scale = scales_for_bbox (bbox detection)
      in case as_int_tuple (bbox detection) of
           (x1, y1, x2, y2) \<Rightarrow>
             let st1 = st[annotated := rectangle cv (st ! annotated) (x1, y1) (x2, y2)
                                         BOX_COLOR (box_thickness scale)];
                 label = class_name detection @ '' '' @ format_2f cv (confidence detection)
             in draw_label cv annotated x1 y1 label
                  (text_scale scale) (text_thickness scale) (padding scale) st1)"

text \<open>
  \<^verbatim>\<open>draw_detections(frame, detections)\<close>: \<^verbatim>\<open>frame.copy()\<close> allocates a new array, the next
  index of the store, with the contents of \<open>frame\<close>; the loop draws on it; its index is
  returned.
\<close>

definition draw_detections ::
  "'f draw_env \<Rightarrow> 'f list \<Rightarrow> nat \<Rightarrow> Detection list \<Rightarrow> 'f list \<times> nat" where
  "draw_detections cv st frame detections =
     (let annotated = length st;
          st0 = st @ [st ! frame]
      in (fold (draw_detection cv annotated) detections st0, annotated))"

subsection \<open>video_io.py\<close>

record VideoMetadata =
  width :: int
  height :: int
  fps :: real
  frame_count :: int

text \<open>
  The life of an OpenCV handle (a \<^verbatim>\<open>VideoCapture\<close> or a \<^verbatim>\<open>VideoWriter\<close>): never
  constructed, constructed but not opened, open, released.
\<close>

datatype handle = Absent | Unopened | Open | Released

text \<open>
  What the file system and OpenCV answer for one input path: whether the path exists,
  \<^verbatim>\<open>capture.isOpened()\<close>, the four properties \<^verbatim>\<open>capture.get\<close> returns (floats), and the
  frames \<^verbatim>\<open>capture.read()\<close> yields before it returns \<^verbatim>\<open>ret = False\<close>. The input is a finite
  video file, so the frames are a list.
\<close>

record 'f video_file =
  path_exists :: bool
  isOpened :: bool
  CAP_PROP_FRAME_WIDTH :: real
  CAP_PROP_FRAME_HEIGHT :: real
  CAP_PROP_FPS :: real
  CAP_PROP_FRAME_COUNT :: real
  stream_frames :: "'f list"

text \<open>
  \<^verbatim>\<open>open_video_capture(path)\<close>: the result or the exception, and the state of the capture
  when the function is left. (\<^verbatim>\<open>x or 0.0\<close> and \<^verbatim>\<open>n or 0\<close> return their left operand unless it
  is zero, and zero then.)
\<close>

definition open_video_capture ::
  "string \<Rightarrow> 'f video_file \<Rightarrow> (error + VideoMetadata) \<times> handle" where
  "open_video_capture video_path file =
     (if \<not> path_exists file then
        (Inl (FileNotFoundError (''Input video not found: '' @ video_path)), Absent)
      else if \<not> isOpened file then
        (Inl (ValueError (''Failed to open video: '' @ video_path)), Unopened)
      else
        let w = py_int (CAP_PROP_FRAME_WIDTH file);
            h = py_int (CAP_PROP_FRAME_HEIGHT file);
            r = (if CAP_PROP_FPS file = 0 then 0 else CAP_PROP_FPS file);
            n = (if py_int (CAP_PROP_FRAME_COUNT file) = 0 then 0
                 else py_int (CAP_PROP_FRAME_COUNT file))
        in if w \<le> 0 \<or> h \<le> 0 then
             (Inl (ValueError (''Invalid video dimensions for: '' @ video_path)), Released)
           else
             (Inr \<lparr>width = w, height = h, fps = r, frame_count = n\<rparr>, Open))"

text \<open>
  \<^verbatim>\<open>create_video_writer(output_path, metadata)\<close>: the parent directory is made, the writer is
  constructed at \<^verbatim>\<open>metadata.fps\<close> (30 when that is not positive) and
  \<^verbatim>\<open>metadata.size\<close>; \<open>opened\<close> is what \<^verbatim>\<open>writer.isOpened()\<close> answers.
\<close>

definition create_video_writer :: "string \<Rightarrow> VideoMetadata \<Rightarrow> bool \<Rightarrow> error option \<times> handle" where
  "create_video_writer output metadata opened =
     (if \<not> opened then
        (Some (ValueError (''Failed to create VideoWriter for: '' @ output)), Unopened)
      else (None, Open))"

subsection \<open>main.py: the inference size\<close>

text \<open>\<^verbatim>\<open>int | Tuple[int, int]\<close>.\<close>

datatype imgsz = Size int | Dims int int

text \<open>The default of the parameter \<^verbatim>\<open>stride\<close>; no caller passes another value.\<close>

definition stride :: int where
  "stride = 32"

text \<open>
  The binary64 float nearest to an integer, with no bound on the exponent: an integer of at
  most 53 bits is exact; a longer one keeps its 53 leading bits, rounded to nearest, ties to
  the even significand.
\<close>

definition nearest_float :: "int \<Rightarrow> int" where
  "nearest_float n =
     (let a = nat \<bar>n\<bar> in
      if bit_length a \<le> 53 then n
      else
        let sh = bit_length a - 53;
            q = a div 2 ^ sh;
            r = a mod 2 ^ sh;
            half = 2 ^ (sh - 1);
            q' = (if half < r \<or> (r = half \<and> odd q) then q + 1 else q)
        in sgn n * int (q' * 2 ^ sh))"

text \<open>
  \<^verbatim>\<open>imgsz / stride\<close> on two \<^verbatim>\<open>int\<close>s is Python's true division: the binary64 float nearest
  to the quotient, and \<^verbatim>\<open>OverflowError\<close> when that is \<open>2 ^ 1024\<close> or more in magnitude. The
  stride is a power of two, so the nearest float of the quotient is the nearest float of the
  dividend, divided exactly.
\<close>

definition truediv_stride :: "int \<Rightarrow> error + real" where
  "truediv_stride n =
     (if 2 ^ 1024 * stride \<le> \<bar>nearest_float n\<bar> then
        Inl (OverflowError ''integer division result too large for a float'')
      else Inr (real_of_int (nearest_float n) / real_of_int stride))"

text \<open>\<^verbatim>\<open>int(math.ceil(x / stride) * stride)\<close> for one dimension.\<close>

definition ceil_to_stride :: "int \<Rightarrow> error + int" where
  "ceil_to_stride n =
     (case truediv_stride n of
        Inl e \<Rightarrow> Inl e
      | Inr x \<Rightarrow> Inr (\<lceil>x\<rceil> * stride))"

fun adjust_imgsz_to_stride :: "imgsz \<Rightarrow> error + imgsz" where
  "adjust_imgsz_to_stride (Size n) =
     (case ceil_to_stride n of
        Inl e \<Rightarrow> Inl e
      | Inr n' \<Rightarrow> Inr (Size n'))"
| "adjust_imgsz_to_stride (Dims h w) =
     (case ceil_to_stride h of
        Inl e \<Rightarrow> Inl e
      | Inr h' \<Rightarrow>
          (case ceil_to_stride w of
             Inl e \<Rightarrow> Inl e
           | Inr w' \<Rightarrow> Inr (Dims h' w')))"

text \<open>
  The first lines of \<^verbatim>\<open>process_video\<close>: the size requested, or the video's own
  \<open>(height, width)\<close> when none is, snapped to the stride.
\<close>

definition effective_imgsz :: "imgsz option \<Rightarrow> VideoMetadata \<Rightarrow> error + imgsz" where
  "effective_imgsz requested metadata =
     adjust_imgsz_to_stride
       (case requested of
          None \<Rightarrow> Dims (height metadata) (width metadata)
        | Some s \<Rightarrow> s)"

text \<open>\<^verbatim>\<open>_normalize_device\<close>, given what torch reports as available.\<close>

definition normalize_device :: "bool \<Rightarrow> bool \<Rightarrow> string \<Rightarrow> string" where
  "normalize_device cuda mps dev =
     (if lower dev \<noteq> ''auto'' then dev
      else if cuda then ''cuda:0''
      else if mps then ''mps''
      else ''cpu'')"

subsection \<open>main.py: one video\<close>

record VideoMetrics =
  input_path :: string
  output_path :: string
  frames :: int
  total_detections :: int
  avg_detections_per_frame :: real
  processing_fps :: real
  duration_seconds :: real
  model :: string
  conf :: real
  imgsz :: "imgsz option"
  device :: string

text \<open>
  What the outside world answers during one run of \<^verbatim>\<open>process_video\<close>: the input file, the
  result of \<^verbatim>\<open>YOLO(model_path)\<close>, the result of \<^verbatim>\<open>detector.detect(frame)\<close> (a list of
  detections, or the exception of the backend), what \<^verbatim>\<open>writer.isOpened()\<close> answers, whether
  \<^verbatim>\<open>writer.write(frame)\<close> raises, what torch reports, the two readings of
  \<^verbatim>\<open>time.perf_counter()\<close>, and the drawing primitives.
\<close>

record 'f run_env =
  video :: "'f video_file"
  yolo :: "error + (int \<times> string) list"
  detect :: "'f \<Rightarrow> error + Detection list"
  writer_opened :: bool
  write_frame :: "'f \<Rightarrow> error option"
  cuda_available :: bool
  mps_available :: bool
  clock_start :: real
  clock_end :: real
  cv :: "'f draw_env"

text \<open>
  The handles and the output when \<^verbatim>\<open>process_video\<close> is left, by \<^verbatim>\<open>return\<close> or by an
  exception: the state of the capture, the state of the writer, the frames written.
\<close>

record 'f run_state =
  capture :: handle
  writer :: handle
  written :: "'f list"

text \<open>
  The value of \<^verbatim>\<open>draw_detections(frame, detections)\<close> where the caller holds \<open>frame\<close>: the
  contents of the array returned, in a store that holds the frame.
\<close>

definition annotate :: "'f draw_env \<Rightarrow> 'f \<Rightarrow> Detection list \<Rightarrow> 'f" where
  "annotate dv frame detections =
     (case draw_detections dv [frame] 0 detections of (st, annotated) \<Rightarrow> st ! annotated)"

text \<open>
  The \<^verbatim>\<open>while True\<close> loop over the frames still to be read. The state is
  \<open>(frame_index, total_detections, frames written)\<close>; the result is the exception that left
  the loop, if any, and the state then.
\<close>

fun stream ::
  "'f run_env \<Rightarrow> 'f list \<Rightarrow> int \<times> int \<times> 'f list \<Rightarrow> error option \<times> int \<times> int \<times> 'f list" where
  "stream env [] s = (None, s)"
| "stream env (frame # rest) (frame_index, total_det, out) =
     (case detect env frame of
        Inl e \<Rightarrow> (Some e, frame_index, total_det, out)
      | Inr detections \<Rightarrow>
          let total_det' = total_det + int (length detections);
              annotated = annotate (cv env) frame detections
          in case write_frame env annotated of
               Some e \<Rightarrow> (Some e, frame_index, total_det', out)
             | None \<Rightarrow> stream env rest (frame_index + 1, total_det', out @ [annotated]))"

definition process_video ::
  "'f run_env \<Rightarrow> string \<Rightarrow> string \<Rightarrow> string \<Rightarrow> real \<Rightarrow> imgsz option \<Rightarrow> string
     \<Rightarrow> (error + VideoMetrics) \<times> 'f run_state" where
  "process_video env inp outp model_path cf requested dev =
     (case open_video_capture inp (video env) of
        (Inl e, cap) \<Rightarrow> (Inl e, \<lparr>capture = cap, writer = Absent, written = []\<rparr>)
      | (Inr metadata, cap) \<Rightarrow>
     (case effective_imgsz requested metadata of
        Inl e \<Rightarrow> (Inl e, \<lparr>capture = cap, writer = Absent, written = []\<rparr>)
      | Inr effective \<Rightarrow>
     (let effective_device = normalize_device (cuda_available env) (mps_available env) dev in
      case Detector_init (yolo env) of
        Inl e \<Rightarrow> (Inl e, \<lparr>capture = cap, writer = Absent, written = []\<rparr>)
      | Inr person_class_id \<Rightarrow>
     (case create_video_writer outp metadata (writer_opened env) of
        (Some e, wr) \<Rightarrow> (Inl e, \<lparr>capture = cap, writer = wr, written = []\<rparr>)
      | (None, wr) \<Rightarrow>
     (case stream env (stream_frames (video env)) (0, 0, []) of
        (Some e, frame_index, total_det, out) \<Rightarrow>
          (Inl e, \<lparr>capture = Released, writer = Released, written = out\<rparr>)
      | (None, frame_index, total_det, out) \<Rightarrow>
          let duration = clock_end env - clock_start env;
              fps_value = (if 0 < duration then real_of_int frame_index / duration else 0);
              avg_det = (if frame_index \<noteq> 0 then real_of_int total_det / real_of_int frame_index
                         else 0)
          in (Inr \<lparr>input_path = inp, output_path = outp, frames = frame_index,
                    total_detections = total_det, avg_detections_per_frame = avg_det,
                    processing_fps = fps_value, duration_seconds = duration,
                    model = model_path, conf = cf, imgsz = Some effective,
                    device = effective_device\<rparr>,
              \<lparr>capture = Released, writer = Released, written = out\<rparr>))))))"

subsection \<open>main.py: a directory of videos\<close>

definition VIDEO_EXTENSIONS :: "string set" where
  "VIDEO_EXTENSIONS = {''.mp4'', ''.mov'', ''.avi'', ''.mkv''}"

text \<open>
  An entry of \<^verbatim>\<open>directory.iterdir()\<close>: its final component and what \<^verbatim>\<open>is_file()\<close> answers.
  The directory exists, and \<^verbatim>\<open>iterdir\<close> lists its entries in some order.
\<close>

record dir_entry =
  name :: string
  is_file :: bool

definition list_videos :: "dir_entry list \<Rightarrow> dir_entry list" where
  "list_videos entries =
     sort_key name
       (filter (\<lambda>p. is_file p \<and> lower (path_suffix (name p)) \<in> VIDEO_EXTENSIONS) entries)"

text \<open>
  What \<^verbatim>\<open>process_directory\<close> has done when it is left: the directories it made, and for
  every call of \<^verbatim>\<open>process_video\<close>, in order, the input path, the output path and the state
  that call left.
\<close>

record 'f batch_state =
  made_dirs :: "string list"
  runs :: "(string \<times> string \<times> 'f run_state) list"

text \<open>
  The \<^verbatim>\<open>for\<close> loop of \<^verbatim>\<open>process_directory\<close> over the videos still to be processed; \<open>envs\<close>
  gives the outside world of each input path.
\<close>

fun process_each ::
  "(string \<Rightarrow> 'f run_env) \<Rightarrow> string \<Rightarrow> string \<Rightarrow> string \<Rightarrow> real \<Rightarrow> imgsz option \<Rightarrow> string
     \<Rightarrow> dir_entry list \<Rightarrow> VideoMetrics list \<Rightarrow> 'f batch_state
     \<Rightarrow> (error + VideoMetrics list) \<times> 'f batch_state" where
  "process_each envs input_dir output_dir model_path cf requested dev [] collected b =
     (Inr collected, b)"
| "process_each envs input_dir output_dir model_path cf requested dev (p # rest) collected b =
     (let video_path = path_join input_dir (name p);
          target_path = path_join output_dir (name p)
      in case process_video (envs video_path) video_path target_path model_path cf requested dev of
           (Inl e, st) \<Rightarrow> (Inl e, b\<lparr>runs := runs b @ [(video_path, target_path, st)]\<rparr>)
         | (Inr metrics, st) \<Rightarrow>
             process_each envs input_dir output_dir model_path cf requested dev rest
               (collected @ [metrics]) (b\<lparr>runs := runs b @ [(video_path, target_path, st)]\<rparr>))"

text \<open>The text of \<^verbatim>\<open>sorted(VIDEO_EXTENSIONS)\<close> in the message.\<close>

definition sorted_extensions_repr :: string where
  "sorted_extensions_repr =
     ''['' @ [CHR 0x27] @ ''.avi'' @ [CHR 0x27] @ '', '' @ [CHR 0x27] @ ''.mkv'' @ [CHR 0x27]
       @ '', '' @ [CHR 0x27] @ ''.mov'' @ [CHR 0x27] @ '', '' @ [CHR 0x27] @ ''.mp4''
       @ [CHR 0x27] @ '']''"

definition process_directory ::
  "(string \<Rightarrow> 'f run_env) \<Rightarrow> string \<Rightarrow> dir_entry list \<Rightarrow> string \<Rightarrow> string \<Rightarrow> real
     \<Rightarrow> imgsz option \<Rightarrow> string \<Rightarrow> (error + VideoMetrics list) \<times> 'f batch_state" where
  "process_directory envs input_dir entries output_dir model_path cf requested dev =
     (let videos = list_videos entries
      in if videos = [] then
           (Inl (FileNotFoundError
                   (''No videos with extensions '' @ sorted_extensions_repr @ '' found in ''
                      @ input_dir)),
            \<lparr>made_dirs = [], runs = []\<rparr>)
         else
           process_each envs input_dir output_dir model_path cf requested dev videos []
             \<lparr>made_dirs = [output_dir], runs = []\<rparr>)"

subsection \<open>main.py: the export of the metrics\<close>

text \<open>The values a field of a metrics dictionary can hold.\<close>

datatype pyval = VStr string | VInt int | VFloat real | VNone | VTuple "pyval list"

text \<open>
  \<^verbatim>\<open>dataclasses.asdict\<close> on a \<^verbatim>\<open>VideoMetrics\<close>: a new dictionary with the fields in the order
  of their declaration. A dictionary is the list of its items in insertion order.
\<close>

definition asdict :: "VideoMetrics \<Rightarrow> (string \<times> pyval) list" where
  "asdict m =
     [(''input_path'', VStr (input_path m)),
      (''output_path'', VStr (output_path m)),
      (''frames'', VInt (frames m)),
      (''total_detections'', VInt (total_detections m)),
      (''avg_detections_per_frame'', VFloat (avg_detections_per_frame m)),
      (''processing_fps'', VFloat (processing_fps m)),
      (''duration_seconds'', VFloat (duration_seconds m)),
      (''model'', VStr (model m)),
      (''conf'', VFloat (conf m)),
      (''imgsz'',
         (case imgsz m of
            None \<Rightarrow> VNone
          | Some (Size n) \<Rightarrow> VInt n
          | Some (Dims h w) \<Rightarrow> VTuple [VInt h, VInt w])),
      (''device'', VStr (device m))]"

text \<open>
  \<^verbatim>\<open>round(x, ndigits)\<close> on a float: the nearest multiple of \<open>10 ^ - ndigits\<close>, a tie going to
  the even multiple.
\<close>

definition py_round :: "real \<Rightarrow> nat \<Rightarrow> real" where
  "py_round x ndigits = real_of_int (round_half_even (x * 10 ^ ndigits)) / 10 ^ ndigits"

definition round_float_fields ::
  "(string \<times> pyval) list list \<Rightarrow> nat \<Rightarrow> (string \<times> pyval) list list" where
  "round_float_fields data ndigits =
     map (\<lambda>item.
            map (\<lambda>(key, v).
                   (key, (case v of VFloat x \<Rightarrow> VFloat (py_round x ndigits) | _ \<Rightarrow> v)))
                item)
         data"

text \<open>
  \<^verbatim>\<open>csv.DictWriter._dict_to_list\<close>: a key outside the field names raises; the row is the
  values in the order of the field names, the empty string for a missing key.
\<close>

definition dict_to_list :: "string list \<Rightarrow> (string \<times> pyval) list \<Rightarrow> error + pyval list" where
  "dict_to_list fieldnames rowdict =
     (if list_ex (\<lambda>key. key \<notin> set fieldnames) (map fst rowdict) then
        Inl (ValueError ''dict contains fields not in fieldnames'')
      else
        Inr (map (\<lambda>key. case map_of rowdict key of Some v \<Rightarrow> v | None \<Rightarrow> VStr [])
               fieldnames))"

text \<open>\<^verbatim>\<open>DictWriter.writerows\<close>: the rows written so far, and the exception that stopped it.\<close>

fun writerows ::
  "string list \<Rightarrow> (string \<times> pyval) list list \<Rightarrow> pyval list list
     \<Rightarrow> error option \<times> pyval list list" where
  "writerows fieldnames [] acc = (None, acc)"
| "writerows fieldnames (rowdict # rest) acc =
     (case dict_to_list fieldnames rowdict of
        Inl e \<Rightarrow> (Some e, acc)
      | Inr row \<Rightarrow> writerows fieldnames rest (acc @ [row]))"

text \<open>
  The two files of \<^verbatim>\<open>write_metrics_files\<close>: the document given to \<^verbatim>\<open>json.dump\<close>, and the
  header and rows given to the \<^verbatim>\<open>csv.DictWriter\<close> (\<open>None\<close> when \<^verbatim>\<open>metrics.csv\<close> is not
  written).
\<close>

record metrics_files =
  metrics_json :: "(string \<times> pyval) list list"
  metrics_csv :: "(string list \<times> pyval list list) option"

definition write_metrics_files :: "VideoMetrics list \<Rightarrow> error option \<times> metrics_files" where
  "write_metrics_files metrics =
     (let data = round_float_fields (map asdict metrics) 2
      in case data of
           [] \<Rightarrow> (None, \<lparr>metrics_json = data, metrics_csv = None\<rparr>)
         | first # others \<Rightarrow>
             let headers = map fst first
             in case writerows headers data [] of
                  (err, rows) \<Rightarrow>
                    (err, \<lparr>metrics_json = data, metrics_csv = Some (headers, rows)\<rparr>))"

text \<open>The names of the fields of \<^verbatim>\<open>VideoMetrics\<close>, in the order of their declaration.\<close>

definition field_names :: "string list" where
  "field_names =
     [''input_path'', ''output_path'', ''frames'', ''total_detections'',
      ''avg_detections_per_frame'', ''processing_fps'', ''duration_seconds'', ''model'',
      ''conf'', ''imgsz'', ''device'']"

subsection \<open>Example inputs\<close>

text \<open>
  Inputs on which the properties below are evaluated. Frames are numbers; drawing a rectangle
  adds 1 to a frame and drawing a text adds 2, so that every drawing call is visible.
\<close>

definition demo_cv :: "nat draw_env" where
  "demo_cv =
     \<lparr>rectangle = (\<lambda>img pt1 pt2 c t. img + 1),
      putText = (\<lambda>img txt org sc c t. img + 2),
      getTextSize = (\<lambda>txt sc t. ((10 * int (length txt), 12), 4)),
      format_2f = (\<lambda>x. ''0.90'')\<rparr>"

definition demo_video :: "nat list \<Rightarrow> nat video_file" where
  "demo_video fs =
     \<lparr>path_exists = True, isOpened = True, CAP_PROP_FRAME_WIDTH = 650,
      CAP_PROP_FRAME_HEIGHT = 480, CAP_PROP_FPS = 25, CAP_PROP_FRAME_COUNT = 2,
      stream_frames = fs\<rparr>"

definition demo_detection :: Detection where
  "demo_detection = \<lparr>bbox = (10, 10, 40, 40), confidence = 0.9, class_name = ''person''\<rparr>"

definition demo_env :: "nat list \<Rightarrow> (int \<times> string) list \<Rightarrow> real \<Rightarrow> nat run_env" where
  "demo_env fs names t =
     \<lparr>video = demo_video fs,
      yolo = Inr names,
      detect = (\<lambda>frame. Inr (if frame = 100 then [demo_detection] else [])),
      writer_opened = True,
      write_frame = (\<lambda>frame. None),
      cuda_available = False,
      mps_available = False,
      clock_start = 10,
      clock_end = t,
      cv = demo_cv\<rparr>"

definition demo_metrics :: VideoMetrics where
  "demo_metrics =
     \<lparr>input_path = ''assets/a.mp4'', output_path = ''outputs/a.mp4'', frames = 8,
      total_detections = 3, avg_detections_per_frame = 0.375, processing_fps = 2.625,
      duration_seconds = 1.125, model = ''yolov8n.pt'', conf = 0.25,
      imgsz = Some (Dims 480 672), device = ''cpu''\<rparr>"

section \<open>Properties\<close>

subsection \<open>The inference size\<close>

lemma bit_length_le_iff: "bit_length n \<le> k \<longleftrightarrow> n < 2 ^ k"
proof (induction n arbitrary: k rule: bit_length.induct)
  case (1 n)
  show ?case
  proof (cases "n = 0")
    case True
    then show ?thesis by (simp add: bit_length.simps)
  next
    case False
    note IH = 1[OF False]
    show ?thesis
    proof (cases k)
      case 0
      with False show ?thesis by (simp add: bit_length.simps)
    next
      case (Suc j)
      have "bit_length n \<le> Suc j \<longleftrightarrow> bit_length (n div 2) \<le> j"
        using False by (subst bit_length.simps) simp
      also have "\<dots> \<longleftrightarrow> n div 2 < 2 ^ j" by (rule IH)
      also have "\<dots> \<longleftrightarrow> n < 2 ^ Suc j" by auto
      finally show ?thesis using Suc by simp
    qed
  qed
qed

lemma bit_length_eq_Suc: "2 ^ k \<le> n \<Longrightarrow> n < 2 ^ Suc k \<Longrightarrow> bit_length n = Suc k"
proof -
  assume a: "2 ^ k \<le> n" and b: "n < 2 ^ Suc k"
  have "bit_length n \<le> Suc k" using b by (simp only: bit_length_le_iff)
  moreover have "\<not> bit_length n \<le> k" using a by (simp only: bit_length_le_iff not_less)
  ultimately show ?thesis by simp
qed

lemma nearest_float_exact: "\<bar>n\<bar> \<le> 2 ^ 53 \<Longrightarrow> nearest_float n = n"
proof -
  assume a: "\<bar>n\<bar> \<le> 2 ^ 53"
  show ?thesis
  proof (cases "\<bar>n\<bar> < 2 ^ 53")
    case True
    then have "nat \<bar>n\<bar> < 2 ^ 53" by (simp add: nat_less_iff)
    then have "bit_length (nat \<bar>n\<bar>) \<le> 53" by (simp only: bit_length_le_iff)
    then show ?thesis by (simp add: nearest_float_def)
  next
    case False
    with a have e: "\<bar>n\<bar> = 2 ^ 53" by simp
    then have n: "nat \<bar>n\<bar> = 2 ^ 53" by simp
    have bl: "bit_length 9007199254740992 = 54"
      using bit_length_eq_Suc [of 53 9007199254740992] by simp
    have "nearest_float n = sgn n * 2 ^ 53"
      by (simp add: nearest_float_def bl n Let_def)
    also have "\<dots> = n" using e by (cases "n < 0") (simp_all add: sgn_if)
    finally show ?thesis .
  qed
qed

lemma nearest_float_2p54: "nearest_float 18014398509481985 = 18014398509481984"
proof -
  have bl: "bit_length 18014398509481985 = 55"
    using bit_length_eq_Suc [of 54 18014398509481985] by simp
  show ?thesis
    by (simp add: nearest_float_def bl Let_def)
qed

lemma ceil_to_stride_exact:
  assumes "\<bar>n\<bar> \<le> 2 ^ 53"
  shows "ceil_to_stride n = Inr (\<lceil>real_of_int n / 32\<rceil> * 32)"
proof -
  have nf: "nearest_float n = n" using assms by (rule nearest_float_exact)
  have "\<bar>n\<bar> < 2 ^ 1024 * 32" using assms by simp
  then show ?thesis
    by (simp add: ceil_to_stride_def truediv_stride_def nf stride_def)
qed

lemma snap_least:
  fixes d :: int
  shows "32 dvd \<lceil>real_of_int d / 32\<rceil> * 32 \<and> d \<le> \<lceil>real_of_int d / 32\<rceil> * 32
    \<and> (\<forall>k. 32 dvd k \<and> d \<le> k \<longrightarrow> \<lceil>real_of_int d / 32\<rceil> * 32 \<le> k)"
proof (intro conjI allI impI)
  show "32 dvd \<lceil>real_of_int d / 32\<rceil> * 32" by simp
  have "real_of_int d \<le> real_of_int \<lceil>real_of_int d / 32\<rceil> * 32"
    using le_of_int_ceiling [of "real_of_int d / 32"] by linarith
  then have "real_of_int d \<le> real_of_int (\<lceil>real_of_int d / 32\<rceil> * 32)" by simp
  then show "d \<le> \<lceil>real_of_int d / 32\<rceil> * 32" by (simp only: of_int_le_iff)
next
  fix k :: int
  assume "32 dvd k \<and> d \<le> k"
  then obtain j where k: "k = 32 * j" and dk: "d \<le> k" by (auto elim: dvdE)
  have "real_of_int d / 32 \<le> real_of_int j" using dk k by simp
  then have "\<lceil>real_of_int d / 32\<rceil> \<le> j" by (simp add: ceiling_le)
  then show "\<lceil>real_of_int d / 32\<rceil> * 32 \<le> k" using k by simp
qed

text \<open>
  Claim C3, as stated, for every requested size: the size is replaced by
  \<open>ceil(dim / 32) * 32\<close>, the smallest multiple of 32 that is at least the dimension. The
  division is a float division, and a dimension of more than 53 bits is rounded before the
  ceiling is taken: the requested size \<open>2 ^ 54 + 1\<close> yields \<open>2 ^ 54\<close>, which is smaller than
  the request.
\<close>

theorem adjust_imgsz_to_stride_counterexample:
  "adjust_imgsz_to_stride (Size 18014398509481985) = Inr (Size 18014398509481984)
   \<and> (18014398509481984::int) < 18014398509481985"
  by (simp add: ceil_to_stride_def truediv_stride_def nearest_float_2p54 stride_def)

text \<open>
  Claim C3, amended: for every requested size whose dimensions are at most \<open>2 ^ 53\<close> in
  magnitude (the integers a float holds exactly). With no size requested, the size is the
  video's \<open>(height, width)\<close>; an integer \<open>n\<close> becomes \<open>ceil(n / 32) * 32\<close> and a pair becomes
  the pair of the two values, each dimension on its own; \<open>ceil(d / 32) * 32\<close> is a multiple of
  32, at least \<open>d\<close>, and no multiple of 32 that is at least \<open>d\<close> is smaller; the size 500
  yields 512.
\<close>

theorem adjust_imgsz_to_stride_exact:
  assumes "\<bar>n\<bar> \<le> 2 ^ 53" and "\<bar>h\<bar> \<le> 2 ^ 53" and "\<bar>w\<bar> \<le> 2 ^ 53"
  shows "adjust_imgsz_to_stride (Size n) = Inr (Size (\<lceil>real_of_int n / 32\<rceil> * 32))
    \<and> adjust_imgsz_to_stride (Dims h w)
        = Inr (Dims (\<lceil>real_of_int h / 32\<rceil> * 32) (\<lceil>real_of_int w / 32\<rceil> * 32))
    \<and> effective_imgsz None md = adjust_imgsz_to_stride (Dims (height md) (width md))
    \<and> effective_imgsz (Some s) md = adjust_imgsz_to_stride s
    \<and> (\<forall>d::int. 32 dvd \<lceil>real_of_int d / 32\<rceil> * 32 \<and> d \<le> \<lceil>real_of_int d / 32\<rceil> * 32
          \<and> (\<forall>k. 32 dvd k \<and> d \<le> k \<longrightarrow> \<lceil>real_of_int d / 32\<rceil> * 32 \<le> k))
    \<and> adjust_imgsz_to_stride (Size 500) = Inr (Size 512)"
proof (intro conjI)
  show "adjust_imgsz_to_stride (Size n) = Inr (Size (\<lceil>real_of_int n / 32\<rceil> * 32))"
    using assms(1) by (simp add: ceil_to_stride_exact)
  show "adjust_imgsz_to_stride (Dims h w)
        = Inr (Dims (\<lceil>real_of_int h / 32\<rceil> * 32) (\<lceil>real_of_int w / 32\<rceil> * 32))"
    using assms(2,3) by (simp add: ceil_to_stride_exact)
  show "effective_imgsz None md = adjust_imgsz_to_stride (Dims (height md) (width md))"
    by (simp add: effective_imgsz_def)
  show "effective_imgsz (Some s) md = adjust_imgsz_to_stride s"
    by (simp add: effective_imgsz_def)
  show "\<forall>d::int. 32 dvd \<lceil>real_of_int d / 32\<rceil> * 32 \<and> d \<le> \<lceil>real_of_int d / 32\<rceil> * 32
          \<and> (\<forall>k. 32 dvd k \<and> d \<le> k \<longrightarrow> \<lceil>real_of_int d / 32\<rceil> * 32 \<le> k)"
    using snap_least by blast
  have "\<bar>500::int\<bar> \<le> 2 ^ 53" by simp
  then show "adjust_imgsz_to_stride (Size 500) = Inr (Size 512)"
    by (simp add: ceil_to_stride_exact)
qed

theorem adjust_imgsz_to_stride_exact_witness:
  "\<bar>500::int\<bar> \<le> 2 ^ 53 \<and> \<bar>480::int\<bar> \<le> 2 ^ 53 \<and> \<bar>650::int\<bar> \<le> 2 ^ 53
   \<and> adjust_imgsz_to_stride (Size 500) = Inr (Size 512)
   \<and> adjust_imgsz_to_stride (Dims 480 650) = Inr (Dims 480 672)
   \<and> effective_imgsz None \<lparr>width = 650, height = 480, fps = 30, frame_count = 10\<rparr>
       = Inr (Dims 480 672)"
proof -
  have a: "\<bar>500::int\<bar> \<le> 2 ^ 53" and b: "\<bar>480::int\<bar> \<le> 2 ^ 53" and c: "\<bar>650::int\<bar> \<le> 2 ^ 53"
    by simp_all
  show ?thesis
    using adjust_imgsz_to_stride_exact [OF a b c,
        of "\<lparr>width = 650, height = 480, fps = 30, frame_count = 10\<rparr>" "Size 500"]
    by simp
qed

subsection \<open>The scale of a box\<close>

lemma bit_length_bounds:
  assumes "0 < n"
  shows "2 ^ (bit_length n - 1) \<le> n \<and> n < 2 ^ bit_length n \<and> 0 < bit_length n"
proof -
  have u: "n < 2 ^ bit_length n"
    using bit_length_le_iff [of n "bit_length n"] by simp
  have p: "0 < bit_length n"
    using bit_length_le_iff [of n 0] assms by simp
  have "\<not> bit_length n \<le> bit_length n - 1" using p by linarith
  then have "\<not> n < 2 ^ (bit_length n - 1)"
    using bit_length_le_iff [of n "bit_length n - 1"] by blast
  with u p show ?thesis by simp
qed

text \<open>The exponent computed is the one of the binade the real lies in.\<close>

lemma float_exponent_bounds:
  assumes "x \<noteq> 0"
  shows "pow2 (float_exponent x) \<le> \<bar>x\<bar> \<and> \<bar>x\<bar> < pow2 (float_exponent x + 1)"
proof (cases "1 \<le> \<bar>x\<bar>")
  case True
  let ?n = "nat \<lfloor>\<bar>x\<bar>\<rfloor>"
  let ?b = "bit_length ?n"
  have n: "0 < ?n" using True by simp
  from bit_length_bounds [OF n]
  have lo: "2 ^ (?b - 1) \<le> ?n" and hi: "?n < 2 ^ ?b" and b: "0 < ?b" by blast+
  have e: "float_exponent x = int ?b - 1" using True by (simp add: float_exponent_def)
  have "real ?n \<le> \<bar>x\<bar>" using True by simp
  moreover have "(2::real) ^ (?b - 1) \<le> real ?n"
    using lo by (metis of_nat_le_iff of_nat_numeral of_nat_power)
  ultimately have l: "(2::real) ^ (?b - 1) \<le> \<bar>x\<bar>" by linarith
  have "?n + 1 \<le> 2 ^ ?b" using hi by linarith
  then have "real (?n + 1) \<le> 2 ^ ?b"
    by (metis of_nat_le_iff of_nat_numeral of_nat_power)
  moreover have "\<bar>x\<bar> < real (?n + 1)" using True by (simp add: nat_less_iff) linarith
  ultimately have h: "\<bar>x\<bar> < 2 ^ ?b" by linarith
  have "nat (int ?b - 1) = ?b - 1" using b by simp
  with l h b show ?thesis by (simp add: e pow2_def)
next
  case False
  let ?a = "\<bar>x\<bar>"
  let ?m = "nat (\<lceil>1 / ?a\<rceil> - 1)"
  let ?b = "bit_length ?m"
  have a: "0 < ?a" "?a < 1" using assms False by simp_all
  then have inv: "1 < 1 / ?a" by simp
  then have c: "2 \<le> \<lceil>1 / ?a\<rceil>" by linarith
  then have m: "0 < ?m" by simp
  from bit_length_bounds [OF m]
  have lo: "2 ^ (?b - 1) \<le> ?m" and hi: "?m < 2 ^ ?b" and b: "0 < ?b" by blast+
  have e: "float_exponent x = - int ?b" using False by (simp add: float_exponent_def)
  have mi: "int ?m = \<lceil>1 / ?a\<rceil> - 1" using c assms by simp
  have "real ?m = real_of_int (int ?m)" by simp
  also have "\<dots> = real_of_int \<lceil>1 / ?a\<rceil> - 1" by (simp only: mi of_int_diff of_int_1)
  finally have mm: "real ?m = real_of_int \<lceil>1 / ?a\<rceil> - 1" .
  have "?m + 1 \<le> 2 ^ ?b" using hi by linarith
  then have "real (?m + 1) \<le> 2 ^ ?b"
    by (metis of_nat_le_iff of_nat_numeral of_nat_power)
  moreover have "1 / ?a \<le> real (?m + 1)" using mm by simp
  ultimately have "1 / ?a \<le> 2 ^ ?b" by linarith
  then have l: "1 / 2 ^ ?b \<le> ?a"
    using a(1) by (simp add: field_simps)
  have "(2::real) ^ (?b - 1) \<le> real ?m"
    using lo by (metis of_nat_le_iff of_nat_numeral of_nat_power)
  moreover have "real ?m < 1 / ?a" using mm by linarith
  ultimately have "(2::real) ^ (?b - 1) < 1 / ?a" by linarith
  then have h: "?a < 1 / 2 ^ (?b - 1)"
    using a(1) by (simp add: field_simps)
  have n1: "nat (int ?b) = ?b" by simp
  show ?thesis
  proof (cases "?b = 1")
    case True
    with l h show ?thesis by (simp add: e pow2_def)
  next
    case False
    with b have "1 < ?b" by simp
    then have "nat (int ?b - 1) = ?b - 1" "\<not> 0 \<le> 1 - int ?b" by simp_all
    with l h b show ?thesis by (simp add: e pow2_def)
  qed
qed

lemma round_half_even_of_int: "round_half_even (real_of_int m) = m"
  by (simp add: round_half_even_def)

lemma round_binary64_of_int:
  assumes "0 < n" and "n < 2 ^ 53"
  shows "round_binary64 (real_of_int n) = real_of_int n"
proof -
  let ?b = "bit_length (nat n)"
  have b53: "?b \<le> 53"
    using assms by (simp only: bit_length_le_iff) (simp add: nat_less_iff)
  have "\<not> ?b \<le> 0" using assms by (simp only: bit_length_le_iff) simp
  then have b1: "1 \<le> ?b" by simp
  have e: "float_exponent (real_of_int n) = int ?b - 1"
    using assms by (simp add: float_exponent_def)
  have m: "max (int ?b - 1) (- 1022) = int ?b - 1" using b1 by simp
  have u: "pow2 (int ?b - 1 - 52) = 1 / 2 ^ (53 - ?b)"
  proof (cases "?b = 53")
    case True
    then show ?thesis by (simp add: pow2_def)
  next
    case False
    with b53 have "?b < 53" by simp
    then have "nat (- (int ?b - 1 - 52)) = 53 - ?b" by simp
    with \<open>?b < 53\<close> show ?thesis by (simp add: pow2_def)
  qed
  have q: "real_of_int n / (1 / 2 ^ (53 - ?b)) = real_of_int (n * 2 ^ (53 - ?b))"
    by simp
  have "round_binary64 (real_of_int n)
      = real_of_int (round_half_even (real_of_int (n * 2 ^ (53 - ?b)))) * (1 / 2 ^ (53 - ?b))"
    using assms(1) by (simp only: round_binary64_def e m u q Let_def) simp
  also have "\<dots> = real_of_int n"
    by (simp only: round_half_even_of_int) simp
  finally show ?thesis .
qed

lemma fsub_examples:
  "fsub 40 10 = 30" "fsub 100 0 = 100" "fsub 120 0 = 120" "fsub 200 0 = 200"
  "fsub 1000 0 = 1000"
  using round_binary64_of_int [of 30] round_binary64_of_int [of 100]
    round_binary64_of_int [of 120] round_binary64_of_int [of 200]
    round_binary64_of_int [of 1000]
  by (simp_all add: fsub_def)

text \<open>
  The floats nearest to 60.3 and to 0.3 are \<open>4243235273913139 / 2 ^ 46\<close> and
  \<open>5404319552844595 / 2 ^ 54\<close>. Their difference is below 60, and the float nearest to it
  is 60.
\<close>

lemma fsub_rounds_up:
  "fsub (4243235273913139 / 70368744177664) (5404319552844595 / 18014398509481984) = 60"
proof -
  have d: "(4243235273913139 / 70368744177664 :: real) - 5404319552844595 / 18014398509481984
      = 1080863910568918989 / 18014398509481984"
    by simp
  have b: "bit_length 59 = 6"
    using bit_length_eq_Suc [of 5 59] by simp
  have f: "\<lfloor>1080863910568918989 / 18014398509481984 :: real\<rfloor> = 59"
    by (simp add: floor_eq_iff)
  have e: "float_exponent (1080863910568918989 / 18014398509481984) = 5"
    by (simp add: float_exponent_def f b)
  have p: "pow2 (- 47) = 1 / 140737488355328"
    by (simp add: pow2_def)
  have fl: "\<lfloor>1080863910568918989 / 128 :: real\<rfloor> = 8444249301319679"
    by (simp add: floor_eq_iff)
  have t: "(1080863910568918989 / 128 :: real) - real_of_int 8444249301319679 = 77 / 128"
    by simp
  have r: "round_half_even (1080863910568918989 / 128) = 8444249301319680"
    unfolding round_half_even_def Let_def fl t by simp
  have "round_binary64 (1080863910568918989 / 18014398509481984) = 60"
    by (simp add: round_binary64_def e p r Let_def)
  then show ?thesis by (simp only: fsub_def d)
qed

text \<open>
  Claim C2: for a box \<open>(xa, ya, xb, yb)\<close> let \<open>ref\<close> be the smaller of its width and height
  as the code computes them (the float differences \<open>xb - xa\<close> and \<open>yb - ya\<close>), each at
  least 1. Below 60 the small scale is selected, from 60 and below 150 the medium one, from
  150 the large one; the scale selected is exactly one of the three; and the scale of a
  detection is the same whatever its confidence and class name are.
\<close>

theorem scales_for_bbox_buckets:
  fixes xa ya xb yb :: real and d :: Detection
  shows "let ref = min (max 1 (fsub xb xa)) (max 1 (fsub yb ya));
             s = scales_for_bbox (xa, ya, xb, yb);
             small = \<lparr>text_scale = 0.40, text_thickness = 1, box_thickness = 1, padding = 2\<rparr>;
             medium = \<lparr>text_scale = 0.55, text_thickness = 1, box_thickness = 2, padding = 4\<rparr>;
             large = \<lparr>text_scale = 0.75, text_thickness = 2, box_thickness = 3, padding = 6\<rparr>
         in (ref < 60 \<longrightarrow> s = small)
          \<and> (60 \<le> ref \<and> ref < 150 \<longrightarrow> s = medium)
          \<and> (150 \<le> ref \<longrightarrow> s = large)
          \<and> ((s = small \<and> s \<noteq> medium \<and> s \<noteq> large)
             \<or> (s = medium \<and> s \<noteq> small \<and> s \<noteq> large)
             \<or> (s = large \<and> s \<noteq> small \<and> s \<noteq> medium))
          \<and> scales_for_bbox (bbox (d\<lparr>confidence := c, class_name := nm\<rparr>))
              = scales_for_bbox (bbox d)"
  unfolding Let_def scales_for_bbox_def by (auto simp: min_def max_def)

theorem scales_for_bbox_buckets_witness:
  "scales_for_bbox (10, 10, 40, 40)
     = \<lparr>text_scale = 0.40, text_thickness = 1, box_thickness = 1, padding = 2\<rparr>
   \<and> scales_for_bbox (0, 0, 100, 120)
     = \<lparr>text_scale = 0.55, text_thickness = 1, box_thickness = 2, padding = 4\<rparr>
   \<and> scales_for_bbox (0, 0, 200, 200)
     = \<lparr>text_scale = 0.75, text_thickness = 2, box_thickness = 3, padding = 6\<rparr>
   \<and> scales_for_bbox
        (5404319552844595 / 18014398509481984, 0, 4243235273913139 / 70368744177664, 1000)
     = \<lparr>text_scale = 0.55, text_thickness = 1, box_thickness = 2, padding = 4\<rparr>"
  using scales_for_bbox_buckets [where xa = 10 and ya = 10 and xb = 40 and yb = 40]
    scales_for_bbox_buckets [where xa = 0 and ya = 0 and xb = 100 and yb = 120]
    scales_for_bbox_buckets [where xa = 0 and ya = 0 and xb = 200 and yb = 200]
    scales_for_bbox_buckets [where xa = "5404319552844595 / 18014398509481984" and ya = 0
      and xb = "4243235273913139 / 70368744177664" and yb = 1000]
  by (simp add: Let_def fsub_examples fsub_rounds_up)

subsection \<open>The example inputs, evaluated\<close>

lemma lower_auto: "lower ''auto'' = ''auto''"
  by (simp add: lower_def lower_char_def)

lemma lower_person: "lower ''person'' = ''person''"
  by (simp add: lower_def lower_char_def)

lemma lower_car: "lower ''car'' = ''car''"
  by (simp add: lower_def lower_char_def)

lemma demo_annotate: "annotate demo_cv frame [demo_detection] = frame + 4"
  by (simp add: annotate_def draw_detections_def draw_detection_def draw_label_def
      demo_cv_def demo_detection_def as_int_tuple_def Let_def)

lemma annotate_Nil: "annotate dv frame [] = frame"
  by (simp add: annotate_def draw_detections_def)

lemma demo_open:
  "open_video_capture inp (demo_video fs)
     = (Inr \<lparr>width = 650, height = 480, fps = 25, frame_count = 2\<rparr>, Open)"
  by (simp add: open_video_capture_def demo_video_def py_int_def Let_def)

lemma demo_frames: "stream_frames (demo_video fs) = fs"
  by (simp add: demo_video_def)

lemma demo_size:
  "effective_imgsz None \<lparr>width = 650, height = 480, fps = 25, frame_count = 2\<rparr>
     = Inr (Dims 480 672)"
  by (simp add: effective_imgsz_def ceil_to_stride_exact)

lemma demo_detector: "Detector_init (Inr [(0, ''person''), (2, ''car'')]) = Inr 0"
  by (simp add: Detector_init_def resolve_person_class_id_def lower_person)

lemma demo_detector_no_person:
  "Detector_init (Inr [(2, ''car'')])
     = Inl (ValueError (''The loaded model does not contain a '' @ [CHR 0x27] @ ''person''
              @ [CHR 0x27] @ '' class.''))"
  by (simp add: Detector_init_def resolve_person_class_id_def lower_car)

lemma demo_run:
  "process_video (demo_env [100, 200] [(0, ''person''), (2, ''car'')] t)
       inp outp ''yolov8n.pt'' (1 / 4) None ''auto''
   = (Inr \<lparr>input_path = inp, output_path = outp, frames = 2,
            total_detections = 1, avg_detections_per_frame = 1 / 2,
            processing_fps = (if 10 < t then 2 / (t - 10) else 0),
            duration_seconds = t - 10, model = ''yolov8n.pt'', conf = 1 / 4,
            imgsz = Some (Dims 480 672), device = ''cpu''\<rparr>,
      \<lparr>capture = Released, writer = Released, written = [104, 200]\<rparr>)"
  by (simp add: process_video_def demo_env_def demo_open demo_size demo_detector
      demo_frames demo_annotate annotate_Nil create_video_writer_def
      normalize_device_def lower_auto Let_def)

lemma demo_run_empty:
  "process_video (demo_env [] [(0, ''person''), (2, ''car'')] t)
       inp outp ''yolov8n.pt'' (1 / 4) None ''auto''
   = (Inr \<lparr>input_path = inp, output_path = outp, frames = 0,
            total_detections = 0, avg_detections_per_frame = 0,
            processing_fps = 0,
            duration_seconds = t - 10, model = ''yolov8n.pt'', conf = 1 / 4,
            imgsz = Some (Dims 480 672), device = ''cpu''\<rparr>,
      \<lparr>capture = Released, writer = Released, written = []\<rparr>)"
  by (simp add: process_video_def demo_env_def demo_open demo_size demo_detector
      demo_frames create_video_writer_def normalize_device_def lower_auto Let_def)

subsection \<open>One video: the frame loop and the metrics\<close>

lemma stream_None:
  "stream env fs (i, n, out) = (None, i', n', out') \<Longrightarrow>
     i' = i + int (length fs)
     \<and> n' = n + (\<Sum>frame\<leftarrow>fs. case detect env frame of Inl e \<Rightarrow> 0 | Inr ds \<Rightarrow> int (length ds))
     \<and> length out' = length out + length fs"
proof (induction fs arbitrary: i n out)
  case Nil
  then show ?case by simp
next
  case (Cons frame rest)
  from Cons.prems obtain ds where d: "detect env frame = Inr ds"
    by (cases "detect env frame") simp_all
  from Cons.prems d have w: "write_frame env (annotate (cv env) frame ds) = None"
    by (cases "write_frame env (annotate (cv env) frame ds)") (simp_all add: Let_def)
  from Cons.prems d w
  have "stream env rest (i + 1, n + int (length ds), out @ [annotate (cv env) frame ds])
          = (None, i', n', out')"
    by (simp add: Let_def)
  from Cons.IH [OF this] d show ?case by simp
qed

lemma process_video_Inr:
  assumes "process_video env inp outp mp cf rq dev = (Inr m, st)"
  shows "\<exists>i n out. stream env (stream_frames (video env)) (0, 0, []) = (None, i, n, out)
           \<and> frames m = i \<and> total_detections m = n \<and> written st = out
           \<and> duration_seconds m = clock_end env - clock_start env
           \<and> processing_fps m
               = (if 0 < duration_seconds m then real_of_int i / duration_seconds m else 0)
           \<and> avg_detections_per_frame m
               = (if i \<noteq> 0 then real_of_int n / real_of_int i else 0)
           \<and> input_path m = inp \<and> output_path m = outp
           \<and> capture st = Released \<and> writer st = Released"
  using assms
  by (auto simp: process_video_def Let_def split: prod.splits sum.splits option.splits)

text \<open>
  Claim C5: when \<^verbatim>\<open>process_video\<close> returns its metrics, \<open>frames\<close> is the number of frames
  read, detected, drawn and written, \<open>total_detections\<close> is the number of detections over
  these frames, and \<open>avg_detections_per_frame\<close> is \<open>total_detections / frames\<close> when
  \<open>frames\<close> is positive and 0 when no frame was processed.
\<close>

theorem avg_detections_per_frame_ok:
  assumes "process_video env inp outp mp cf rq dev = (Inr m, st)"
  shows "frames m = int (length (stream_frames (video env)))
    \<and> length (written st) = length (stream_frames (video env))
    \<and> total_detections m
        = (\<Sum>frame\<leftarrow>stream_frames (video env).
             case detect env frame of Inl e \<Rightarrow> 0 | Inr ds \<Rightarrow> int (length ds))
    \<and> (0 < frames m \<longrightarrow>
          avg_detections_per_frame m = real_of_int (total_detections m) / real_of_int (frames m))
    \<and> (frames m = 0 \<longrightarrow> avg_detections_per_frame m = 0)"
proof -
  from process_video_Inr [OF assms] obtain i n out where
    s: "stream env (stream_frames (video env)) (0, 0, []) = (None, i, n, out)"
    and m: "frames m = i" "total_detections m = n" "written st = out"
    and a: "avg_detections_per_frame m = (if i \<noteq> 0 then real_of_int n / real_of_int i else 0)"
    by blast
  from stream_None [OF s] m a show ?thesis by simp
qed

theorem avg_detections_per_frame_ok_witness:
  "(case process_video (demo_env [100, 200] [(0, ''person''), (2, ''car'')] 12)
           ''assets/a.mp4'' ''outputs/a.mp4'' ''yolov8n.pt'' (1 / 4) None ''auto'' of
      (Inl e, st) \<Rightarrow> False
    | (Inr m, st) \<Rightarrow>
        0 < frames m \<and> frames m = 2 \<and> total_detections m = 1
        \<and> avg_detections_per_frame m = 1 / 2 \<and> length (written st) = 2)
   \<and> (case process_video (demo_env [] [(0, ''person''), (2, ''car'')] 12)
           ''assets/a.mp4'' ''outputs/a.mp4'' ''yolov8n.pt'' (1 / 4) None ''auto'' of
      (Inl e, st) \<Rightarrow> False
    | (Inr m, st) \<Rightarrow> frames m = 0 \<and> avg_detections_per_frame m = 0)"
proof -
  note run = demo_run [where t = 12 and inp = "''assets/a.mp4''" and outp = "''outputs/a.mp4''"]
  note run_empty =
    demo_run_empty [where t = 12 and inp = "''assets/a.mp4''" and outp = "''outputs/a.mp4''"]
  show ?thesis
    using avg_detections_per_frame_ok [OF run] avg_detections_per_frame_ok [OF run_empty]
    by (simp add: demo_run demo_run_empty)
qed

text \<open>
  Claim C6: when \<^verbatim>\<open>process_video\<close> returns its metrics, \<open>duration_seconds\<close> is the
  difference of the two clock readings, and \<open>processing_fps\<close> is the number of frames
  processed divided by the duration when the duration is positive and 0 when it is 0.
\<close>

theorem processing_fps_ok:
  assumes "process_video env inp outp mp cf rq dev = (Inr m, st)"
  shows "frames m = int (length (stream_frames (video env)))
    \<and> duration_seconds m = clock_end env - clock_start env
    \<and> (0 < duration_seconds m \<longrightarrow>
          processing_fps m = real_of_int (frames m) / duration_seconds m)
    \<and> (duration_seconds m = 0 \<longrightarrow> processing_fps m = 0)"
proof -
  from process_video_Inr [OF assms] obtain i n out where
    s: "stream env (stream_frames (video env)) (0, 0, []) = (None, i, n, out)"
    and m: "frames m = i" "duration_seconds m = clock_end env - clock_start env"
    and a: "processing_fps m
              = (if 0 < duration_seconds m then real_of_int i / duration_seconds m else 0)"
    by blast
  from stream_None [OF s] m a show ?thesis by simp
qed

theorem processing_fps_ok_witness:
  "(case process_video (demo_env [100, 200] [(0, ''person''), (2, ''car'')] 14)
           ''assets/a.mp4'' ''outputs/a.mp4'' ''yolov8n.pt'' (1 / 4) None ''auto'' of
      (Inl e, st) \<Rightarrow> False
    | (Inr m, st) \<Rightarrow>
        0 < duration_seconds m \<and> duration_seconds m = 4 \<and> frames m = 2
        \<and> processing_fps m = 1 / 2)
   \<and> (case process_video (demo_env [100, 200] [(0, ''person''), (2, ''car'')] 10)
           ''assets/a.mp4'' ''outputs/a.mp4'' ''yolov8n.pt'' (1 / 4) None ''auto'' of
      (Inl e, st) \<Rightarrow> False
    | (Inr m, st) \<Rightarrow> duration_seconds m = 0 \<and> processing_fps m = 0)"
proof -
  note run = demo_run [where t = 14 and inp = "''assets/a.mp4''" and outp = "''outputs/a.mp4''"]
  note run_instant =
    demo_run [where t = 10 and inp = "''assets/a.mp4''" and outp = "''outputs/a.mp4''"]
  show ?thesis
    using processing_fps_ok [OF run] processing_fps_ok [OF run_instant]
    by (simp add: demo_run)
qed

subsection \<open>One video: the handles\<close>

text \<open>
  Once the writer has been created, every way out of \<^verbatim>\<open>process_video\<close> passes through the
  \<^verbatim>\<open>finally\<close> block, and both handles are released.
\<close>

lemma process_video_releases_once_streaming:
  assumes "open_video_capture inp (video env) = (Inr metadata, cap)"
    and "effective_imgsz rq metadata = Inr sz"
    and "Detector_init (yolo env) = Inr pid"
    and "writer_opened env"
  shows "capture (snd (process_video env inp outp mp cf rq dev)) = Released
    \<and> writer (snd (process_video env inp outp mp cf rq dev)) = Released"
  using assms
  by (simp add: process_video_def create_video_writer_def Let_def
      split: prod.splits option.splits)

text \<open>
  Claim C1 says that the capture and the writer are released on every way out of
  \<^verbatim>\<open>process_video\<close>, also when the exception is raised while the resources are acquired.
  The capture is opened, and the \<^verbatim>\<open>Detector\<close> and the writer are constructed, before the
  \<^verbatim>\<open>try\<close> statement is entered. Here the video opens and the model has no class named
  person: \<^verbatim>\<open>Detector.__init__\<close> raises \<^verbatim>\<open>ValueError\<close>, no metrics are returned, and the
  capture is left open.
\<close>

theorem process_video_leaks_capture:
  "process_video (demo_env [100, 200] [(2, ''car'')] 12)
       ''assets/a.mp4'' ''outputs/a.mp4'' ''yolov8n.pt'' (1 / 4) None ''auto''
   = (Inl (ValueError (''The loaded model does not contain a '' @ [CHR 0x27] @ ''person''
             @ [CHR 0x27] @ '' class.'')),
      \<lparr>capture = Open, writer = Absent, written = []\<rparr>)"
  by (simp add: process_video_def demo_env_def demo_open demo_size demo_detector_no_person
      Let_def)

subsection \<open>Opening a video\<close>

text \<open>
  Claim C9: \<^verbatim>\<open>open_video_capture\<close> raises \<^verbatim>\<open>FileNotFoundError\<close> exactly when the path does
  not exist. When the path exists and the capture is not opened, or the width or the height
  read from it is not positive, it raises \<^verbatim>\<open>ValueError\<close>, and in the case of the
  dimensions the capture has been released. Otherwise it returns the open capture and
  metadata whose width and height are positive. (The width and the height read are
  \<^verbatim>\<open>int(capture.get(...))\<close>; a reported value that is not positive is read as one that is
  not positive.)
\<close>

theorem open_video_capture_outcomes:
  "(case open_video_capture p vf of
      (r, cap) \<Rightarrow>
        ((\<exists>msg. r = Inl (FileNotFoundError msg)) \<longleftrightarrow> \<not> path_exists vf)
        \<and> (path_exists vf
             \<and> (\<not> isOpened vf \<or> py_int (CAP_PROP_FRAME_WIDTH vf) \<le> 0
                  \<or> py_int (CAP_PROP_FRAME_HEIGHT vf) \<le> 0)
            \<longrightarrow> (\<exists>msg. r = Inl (ValueError msg)))
        \<and> (path_exists vf \<and> isOpened vf
             \<and> (py_int (CAP_PROP_FRAME_WIDTH vf) \<le> 0
                  \<or> py_int (CAP_PROP_FRAME_HEIGHT vf) \<le> 0)
            \<longrightarrow> cap = Released)
        \<and> (path_exists vf \<and> isOpened vf
             \<and> 0 < py_int (CAP_PROP_FRAME_WIDTH vf)
             \<and> 0 < py_int (CAP_PROP_FRAME_HEIGHT vf)
            \<longrightarrow> cap = Open
                \<and> (\<exists>metadata. r = Inr metadata
                      \<and> width metadata = py_int (CAP_PROP_FRAME_WIDTH vf)
                      \<and> height metadata = py_int (CAP_PROP_FRAME_HEIGHT vf)
                      \<and> 0 < width metadata \<and> 0 < height metadata)))
   \<and> (CAP_PROP_FRAME_WIDTH vf \<le> 0 \<longrightarrow> py_int (CAP_PROP_FRAME_WIDTH vf) \<le> 0)
   \<and> (CAP_PROP_FRAME_HEIGHT vf \<le> 0 \<longrightarrow> py_int (CAP_PROP_FRAME_HEIGHT vf) \<le> 0)"
  by (auto simp: open_video_capture_def py_int_def Let_def)

theorem open_video_capture_outcomes_witness:
  "open_video_capture ''assets/gone.mp4'' ((demo_video [])\<lparr>path_exists := False\<rparr>)
     = (Inl (FileNotFoundError ''Input video not found: assets/gone.mp4''), Absent)
   \<and> open_video_capture ''assets/text.mp4'' ((demo_video [])\<lparr>isOpened := False\<rparr>)
     = (Inl (ValueError ''Failed to open video: assets/text.mp4''), Unopened)
   \<and> open_video_capture ''assets/flat.mp4'' ((demo_video [])\<lparr>CAP_PROP_FRAME_HEIGHT := 0\<rparr>)
     = (Inl (ValueError ''Invalid video dimensions for: assets/flat.mp4''), Released)
   \<and> open_video_capture ''assets/a.mp4'' (demo_video [100, 200])
     = (Inr \<lparr>width = 650, height = 480, fps = 25, frame_count = 2\<rparr>, Open)"
  using open_video_capture_outcomes [where p = "''assets/gone.mp4''" and vf = "(demo_video [])\<lparr>path_exists := False\<rparr>"]
    open_video_capture_outcomes [where p = "''assets/text.mp4''" and vf = "(demo_video [])\<lparr>isOpened := False\<rparr>"]
    open_video_capture_outcomes [where p = "''assets/flat.mp4''" and vf = "(demo_video [])\<lparr>CAP_PROP_FRAME_HEIGHT := 0\<rparr>"]
    open_video_capture_outcomes [where p = "''assets/a.mp4''" and vf = "demo_video [100, 200]"]
  by (simp add: open_video_capture_def demo_video_def py_int_def Let_def)

subsection \<open>A directory of videos\<close>

lemma list_videos_Nil_iff:
  "list_videos entries = []
     \<longleftrightarrow> (\<forall>p\<in>set entries. is_file p \<longrightarrow> lower (path_suffix (name p)) \<notin> VIDEO_EXTENSIONS)"
proof -
  have "list_videos entries = [] \<longleftrightarrow> set (list_videos entries) = {}" by simp
  also have "\<dots> \<longleftrightarrow> (\<forall>p\<in>set entries. is_file p \<longrightarrow> lower (path_suffix (name p)) \<notin> VIDEO_EXTENSIONS)"
    by (auto simp: list_videos_def)
  finally show ?thesis .
qed

lemma suffix_notes: "lower (path_suffix ''notes.txt'') = ''.txt''"
  by (simp add: path_suffix_def rfind_def lower_def lower_char_def Let_def)

lemma suffix_upper: "lower (path_suffix ''B.MOV'') = ''.mov''"
  by (simp add: path_suffix_def rfind_def lower_def lower_char_def Let_def)

lemma suffix_lower: "lower (path_suffix ''b.mp4'') = ''.mp4''"
  by (simp add: path_suffix_def rfind_def lower_def lower_char_def Let_def)

lemma suffix_none: "lower (path_suffix ''README'') = []"
  by (simp add: path_suffix_def rfind_def lower_def lower_char_def Let_def)

text \<open>
  Claim C7: when no entry of the input directory is a file with a recognized video
  extension, \<^verbatim>\<open>process_directory\<close> raises the \<^verbatim>\<open>FileNotFoundError\<close> whose message names the
  extensions and the directory; it has made no directory and run no video, so there is no
  output file, and it returns no metrics.
\<close>

theorem process_directory_empty_batch:
  assumes "\<forall>p\<in>set entries. is_file p \<longrightarrow> lower (path_suffix (name p)) \<notin> VIDEO_EXTENSIONS"
  shows "process_directory envs input_dir entries output_dir mp cf rq dev
    = (Inl (FileNotFoundError
              (''No videos with extensions '' @ sorted_extensions_repr @ '' found in ''
                 @ input_dir)),
       \<lparr>made_dirs = [], runs = []\<rparr>)"
  using assms by (simp add: process_directory_def list_videos_Nil_iff Let_def)

theorem process_directory_empty_batch_witness:
  "process_directory (\<lambda>p. demo_env [100, 200] [(0, ''person''), (2, ''car'')] 12) ''assets''
      [\<lparr>name = ''notes.txt'', is_file = True\<rparr>, \<lparr>name = ''b.mp4'', is_file = False\<rparr>,
       \<lparr>name = ''README'', is_file = True\<rparr>]
      ''outputs'' ''yolov8n.pt'' (1 / 4) None ''auto''
    = (Inl (FileNotFoundError
              (''No videos with extensions '' @ sorted_extensions_repr @ '' found in assets'')),
       \<lparr>made_dirs = [], runs = []\<rparr>)"
proof -
  have "\<forall>p\<in>set [\<lparr>name = ''notes.txt'', is_file = True\<rparr>, \<lparr>name = ''b.mp4'', is_file = False\<rparr>,
           \<lparr>name = ''README'', is_file = True\<rparr>].
          is_file p \<longrightarrow> lower (path_suffix (name p)) \<notin> VIDEO_EXTENSIONS"
    by (simp add: suffix_notes suffix_none VIDEO_EXTENSIONS_def)
  from process_directory_empty_batch [OF this] show ?thesis by simp
qed

lemma process_video_input_path:
  "process_video env inp outp mp cf rq dev = (Inr m, st) \<Longrightarrow> input_path m = inp"
  using process_video_Inr by blast

lemma process_each_order:
  "process_each envs ind outd mp cf rq dev ps collected b = (r, b') \<Longrightarrow>
     \<exists>k\<le>length ps.
        map fst (runs b') = map fst (runs b) @ map (\<lambda>p. path_join ind (name p)) (take k ps)
        \<and> (\<forall>ms. r = Inr ms \<longrightarrow>
              k = length ps
              \<and> map input_path ms
                  = map input_path collected @ map (\<lambda>p. path_join ind (name p)) ps)"
proof (induction ps arbitrary: collected b)
  case Nil
  then show ?case by auto
next
  case (Cons p rest)
  let ?vp = "path_join ind (name p)"
  let ?tp = "path_join outd (name p)"
  obtain res st where pv: "process_video (envs ?vp) ?vp ?tp mp cf rq dev = (res, st)"
    by (cases "process_video (envs ?vp) ?vp ?tp mp cf rq dev") auto
  show ?case
  proof (cases res)
    case (Inl e)
    with Cons.prems pv have "r = Inl e" and "runs b' = runs b @ [(?vp, ?tp, st)]"
      by (auto simp: Let_def)
    then have "map fst (runs b') = map fst (runs b) @ map (\<lambda>p. path_join ind (name p)) (take 1 (p # rest))
        \<and> (\<forall>ms. r = Inr ms \<longrightarrow> 1 = length (p # rest)
              \<and> map input_path ms
                  = map input_path collected @ map (\<lambda>p. path_join ind (name p)) (p # rest))"
      by simp
    then show ?thesis by (intro exI [of _ 1]) simp
  next
    case (Inr m)
    with Cons.prems pv
    have "process_each envs ind outd mp cf rq dev rest (collected @ [m])
            (b\<lparr>runs := runs b @ [(?vp, ?tp, st)]\<rparr>) = (r, b')"
      by (simp add: Let_def)
    from Cons.IH [OF this] obtain k where k: "k \<le> length rest"
      and r: "map fst (runs b')
               = map fst (runs (b\<lparr>runs := runs b @ [(?vp, ?tp, st)]\<rparr>))
                   @ map (\<lambda>p. path_join ind (name p)) (take k rest)"
      and ms: "\<forall>ms. r = Inr ms \<longrightarrow>
              k = length rest
              \<and> map input_path ms
                  = map input_path (collected @ [m]) @ map (\<lambda>p. path_join ind (name p)) rest"
      by blast
    have ip: "input_path m = ?vp" using pv Inr by (simp add: process_video_input_path)
    show ?thesis
    proof (intro exI [of _ "Suc k"] conjI allI impI)
      show "Suc k \<le> length (p # rest)" using k by simp
      show "map fst (runs b')
              = map fst (runs b) @ map (\<lambda>p. path_join ind (name p)) (take (Suc k) (p # rest))"
        using r by simp
    next
      fix xs assume "r = Inr xs"
      with ms show "Suc k = length (p # rest)" by simp
    next
      fix xs assume "r = Inr xs"
      with ms ip show "map input_path xs
          = map input_path collected @ map (\<lambda>p. path_join ind (name p)) (p # rest)"
        by simp
    qed
  qed
qed

lemma demo_list_videos:
  "list_videos [\<lparr>name = ''b.mp4'', is_file = True\<rparr>, \<lparr>name = ''notes.txt'', is_file = True\<rparr>,
        \<lparr>name = ''B.MOV'', is_file = True\<rparr>, \<lparr>name = ''c.mkv'', is_file = False\<rparr>]
     = [\<lparr>name = ''B.MOV'', is_file = True\<rparr>, \<lparr>name = ''b.mp4'', is_file = True\<rparr>]"
  by (simp add: list_videos_def suffix_notes suffix_upper suffix_lower VIDEO_EXTENSIONS_def)

text \<open>
  Claim C10: the videos selected in a directory are exactly the entries of the directory
  itself (\<^verbatim>\<open>iterdir\<close> does not descend) that are files and whose suffix, in lower case,
  is one of \<open>.mp4\<close>, \<open>.mov\<close>, \<open>.avi\<close>, \<open>.mkv\<close> (so
  \<open>clip.MP4\<close> is one), each entry once; they are listed in ascending order of their names;
  and \<^verbatim>\<open>process_directory\<close> runs them in that order: the input paths of its runs are an
  initial segment of the list, and all of it, in order, when it returns the metrics.
\<close>

theorem list_videos_selection:
  "set (list_videos entries)
     = {p \<in> set entries. is_file p
          \<and> lower (path_suffix (name p)) \<in> {''.mp4'', ''.mov'', ''.avi'', ''.mkv''}}
   \<and> length (list_videos entries)
     = length (filter (\<lambda>p. is_file p
          \<and> lower (path_suffix (name p)) \<in> {''.mp4'', ''.mov'', ''.avi'', ''.mkv''}) entries)
   \<and> sorted (map name (list_videos entries))
   \<and> lower (path_suffix ''clip.MP4'') = ''.mp4''
   \<and> (case process_directory envs input_dir entries output_dir mp cf rq dev of
         (r, b) \<Rightarrow>
           (\<exists>k. map fst (runs b)
                  = take k (map (\<lambda>p. path_join input_dir (name p)) (list_videos entries)))
           \<and> (\<forall>ms. r = Inr ms \<longrightarrow>
                 map input_path ms
                   = map (\<lambda>p. path_join input_dir (name p)) (list_videos entries)))"
proof (intro conjI)
  show "set (list_videos entries)
     = {p \<in> set entries. is_file p
          \<and> lower (path_suffix (name p)) \<in> {''.mp4'', ''.mov'', ''.avi'', ''.mkv''}}"
    by (auto simp: list_videos_def VIDEO_EXTENSIONS_def)
  show "length (list_videos entries)
     = length (filter (\<lambda>p. is_file p
          \<and> lower (path_suffix (name p)) \<in> {''.mp4'', ''.mov'', ''.avi'', ''.mkv''}) entries)"
    by (simp add: list_videos_def VIDEO_EXTENSIONS_def)
  show "sorted (map name (list_videos entries))"
    by (simp add: list_videos_def sorted_sort_key)
  show "lower (path_suffix ''clip.MP4'') = ''.mp4''"
    by (simp add: path_suffix_def rfind_def lower_def lower_char_def Let_def)
  show "case process_directory envs input_dir entries output_dir mp cf rq dev of
         (r, b) \<Rightarrow>
           (\<exists>k. map fst (runs b)
                  = take k (map (\<lambda>p. path_join input_dir (name p)) (list_videos entries)))
           \<and> (\<forall>ms. r = Inr ms \<longrightarrow>
                 map input_path ms
                   = map (\<lambda>p. path_join input_dir (name p)) (list_videos entries))"
  proof (cases "list_videos entries = []")
    case True
    then show ?thesis by (simp add: process_directory_def)
  next
    case False
    obtain r b where pe: "process_each envs input_dir output_dir mp cf rq dev
        (list_videos entries) [] \<lparr>made_dirs = [output_dir], runs = []\<rparr> = (r, b)"
      by (cases "process_each envs input_dir output_dir mp cf rq dev
        (list_videos entries) [] \<lparr>made_dirs = [output_dir], runs = []\<rparr>") auto
    from process_each_order [OF pe] obtain k where
      "map fst (runs b) = map (\<lambda>p. path_join input_dir (name p)) (take k (list_videos entries))"
      and "\<forall>ms. r = Inr ms \<longrightarrow>
              map input_path ms = map (\<lambda>p. path_join input_dir (name p)) (list_videos entries)"
      by auto
    then show ?thesis using False pe by (auto simp: process_directory_def Let_def take_map)
  qed
qed

theorem list_videos_selection_witness:
  "list_videos [\<lparr>name = ''b.mp4'', is_file = True\<rparr>, \<lparr>name = ''notes.txt'', is_file = True\<rparr>,
        \<lparr>name = ''B.MOV'', is_file = True\<rparr>, \<lparr>name = ''c.mkv'', is_file = False\<rparr>]
     = [\<lparr>name = ''B.MOV'', is_file = True\<rparr>, \<lparr>name = ''b.mp4'', is_file = True\<rparr>]
   \<and> map input_path
       (case fst (process_directory (\<lambda>p. demo_env [100, 200] [(0, ''person''), (2, ''car'')] 12)
                ''assets''
                [\<lparr>name = ''b.mp4'', is_file = True\<rparr>, \<lparr>name = ''notes.txt'', is_file = True\<rparr>,
                 \<lparr>name = ''B.MOV'', is_file = True\<rparr>, \<lparr>name = ''c.mkv'', is_file = False\<rparr>]
                ''outputs'' ''yolov8n.pt'' (1 / 4) None ''auto'') of
          Inl e \<Rightarrow> []
        | Inr ms \<Rightarrow> ms)
     = [''assets/B.MOV'', ''assets/b.mp4'']"
  using list_videos_selection [where entries = "[\<lparr>name = ''b.mp4'', is_file = True\<rparr>,
        \<lparr>name = ''notes.txt'', is_file = True\<rparr>,
        \<lparr>name = ''B.MOV'', is_file = True\<rparr>, \<lparr>name = ''c.mkv'', is_file = False\<rparr>]"
      and envs = "\<lambda>p. demo_env [100, 200] [(0, ''person''), (2, ''car'')] 12"
      and input_dir = "''assets''" and output_dir = "''outputs''" and mp = "''yolov8n.pt''"
      and cf = "1 / 4" and rq = None and dev = "''auto''"]
  by (simp add: demo_list_videos process_directory_def demo_run path_join_def Let_def)

subsection \<open>Drawing on a frame\<close>

lemma draw_label_others:
  "length (draw_label dv c x y txt sc th pd st) = length st
   \<and> (\<forall>a. a \<noteq> c \<longrightarrow> draw_label dv c x y txt sc th pd st ! a = st ! a)"
  by (simp add: draw_label_def Let_def split: prod.splits)

lemma draw_detection_others:
  "length (draw_detection dv c d st) = length st
   \<and> (\<forall>a. a \<noteq> c \<longrightarrow> draw_detection dv c d st ! a = st ! a)"
  by (simp add: draw_detection_def draw_label_others Let_def split: prod.splits)

lemma fold_draw_detection_others:
  "length (fold (draw_detection dv c) ds st) = length st
   \<and> (\<forall>a. a \<noteq> c \<longrightarrow> fold (draw_detection dv c) ds st ! a = st ! a)"
  by (induction ds arbitrary: st) (simp_all add: draw_detection_others)

lemma draw_label_local:
  assumes "c < length st" and "c' < length st'" and "st ! c = st' ! c'"
  shows "draw_label dv c x y txt sc th pd st ! c = draw_label dv c' x y txt sc th pd st' ! c'"
  using assms by (simp add: draw_label_def Let_def split: prod.splits)

lemma draw_detection_local:
  assumes "c < length st" and "c' < length st'" and "st ! c = st' ! c'"
  shows "draw_detection dv c d st ! c = draw_detection dv c' d st' ! c'"
  using assms
  by (auto simp: draw_detection_def Let_def split: prod.splits intro!: draw_label_local)

lemma fold_draw_detection_local:
  assumes "c < length st" and "c' < length st'" and "st ! c = st' ! c'"
  shows "fold (draw_detection dv c) ds st ! c = fold (draw_detection dv c') ds st' ! c'"
  using assms
proof (induction ds arbitrary: st st')
  case Nil
  then show ?case by simp
next
  case (Cons d ds)
  have "fold (draw_detection dv c) ds (draw_detection dv c d st) ! c
      = fold (draw_detection dv c') ds (draw_detection dv c' d st') ! c'"
  proof (rule Cons.IH)
    show "c < length (draw_detection dv c d st)"
      using Cons.prems by (simp add: draw_detection_others)
    show "c' < length (draw_detection dv c' d st')"
      using Cons.prems by (simp add: draw_detection_others)
    show "draw_detection dv c d st ! c = draw_detection dv c' d st' ! c'"
      using Cons.prems by (rule draw_detection_local)
  qed
  then show ?case by simp
qed

text \<open>
  Claim C8: \<^verbatim>\<open>draw_detections\<close> returns a new array, one that was not in the store before
  the call and so is not the input frame; every array that was in the store, the input
  frame among them, has the contents it had before the call; and the contents of the new
  array depend on the contents of the input frame and on the detections only.
\<close>

theorem draw_detections_copy:
  assumes "frame < length st"
  shows "case draw_detections dv st frame detections of
           (st', annotated) \<Rightarrow>
             annotated = length st
             \<and> annotated \<noteq> frame
             \<and> length st' = Suc (length st)
             \<and> take (length st) st' = st
             \<and> st' ! frame = st ! frame
             \<and> st' ! annotated = annotate dv (st ! frame) detections"
proof -
  let ?st0 = "st @ [st ! frame]"
  let ?st' = "fold (draw_detection dv (length st)) detections ?st0"
  have len: "length ?st' = Suc (length st)"
    by (simp add: fold_draw_detection_others)
  have others: "\<And>a. a < length st \<Longrightarrow> ?st' ! a = st ! a"
    by (simp add: fold_draw_detection_others nth_append)
  have tk: "take (length st) ?st' = st"
    by (rule nth_equalityI) (simp_all add: len others)
  have loc: "?st' ! length st
      = fold (draw_detection dv (length [st ! frame])) detections ([st ! frame] @ [[st ! frame] ! 0])
          ! length [st ! frame]"
    by (rule fold_draw_detection_local) simp_all
  show ?thesis
    using assms len tk others [OF assms] loc
    by (simp add: draw_detections_def annotate_def Let_def)
qed

theorem draw_detections_copy_witness:
  "draw_detections demo_cv [7, 9] 0 [demo_detection, demo_detection] = ([7, 9, 15], 2)"
proof -
  have "(0::nat) < length [7::nat, 9]" by simp
  from draw_detections_copy [OF this, of demo_cv "[demo_detection, demo_detection]"]
  show ?thesis
    by (simp add: draw_detections_def draw_detection_def draw_label_def
        demo_cv_def demo_detection_def as_int_tuple_def Let_def)
qed

subsection \<open>The export of the metrics\<close>

lemma round_half_even_near: "\<bar>real_of_int (round_half_even y) - y\<bar> \<le> 1 / 2"
proof -
  have "real_of_int \<lfloor>y\<rfloor> \<le> y" and "y < real_of_int \<lfloor>y\<rfloor> + 1" by linarith+
  then show ?thesis
    by (auto simp: round_half_even_def Let_def)
qed

lemma py_round_2: "\<bar>py_round x 2 - x\<bar> \<le> 1 / 200 \<and> (\<exists>k::int. py_round x 2 = real_of_int k / 100)"
proof
  have "\<bar>real_of_int (round_half_even (x * 100)) - x * 100\<bar> \<le> 1 / 2"
    by (rule round_half_even_near)
  then show "\<bar>py_round x 2 - x\<bar> \<le> 1 / 200"
    by (simp add: py_round_def abs_le_iff field_simps)
  show "\<exists>k::int. py_round x 2 = real_of_int k / 100"
    by (auto simp: py_round_def)
qed

lemma map_of_own_keys:
  "distinct (map fst row) \<Longrightarrow>
     map (\<lambda>key. case map_of row key of Some v \<Rightarrow> v | None \<Rightarrow> d) (map fst row) = map snd row"
proof (induction row)
  case Nil
  then show ?case by simp
next
  case (Cons kv row)
  obtain k v where kv: "kv = (k, v)" by (cases kv)
  from Cons.prems kv have nk: "k \<notin> fst ` set row" and dr: "distinct (map fst row)" by simp_all
  have "map (\<lambda>key. case map_of (kv # row) key of Some v \<Rightarrow> v | None \<Rightarrow> d) (map fst row)
      = map (\<lambda>key. case map_of row key of Some v \<Rightarrow> v | None \<Rightarrow> d) (map fst row)"
    using nk kv by (intro map_cong) auto
  with Cons.IH [OF dr] kv show ?case by simp
qed

lemma dict_to_list_same_keys:
  assumes "map fst rowdict = fieldnames" and "distinct fieldnames"
  shows "dict_to_list fieldnames rowdict = Inr (map snd rowdict)"
proof -
  have "\<not> list_ex (\<lambda>key. key \<notin> set fieldnames) (map fst rowdict)"
    using assms(1) by (simp add: list_ex_iff)
  moreover have "map (\<lambda>key. case map_of rowdict key of Some v \<Rightarrow> v | None \<Rightarrow> VStr [])
      fieldnames = map snd rowdict"
    using map_of_own_keys [of rowdict "VStr []"] assms by simp
  ultimately show ?thesis by (simp add: dict_to_list_def)
qed

lemma writerows_same_keys:
  assumes "\<forall>rowdict\<in>set rows. map fst rowdict = fieldnames" and "distinct fieldnames"
  shows "writerows fieldnames rows acc = (None, acc @ map (map snd) rows)"
  using assms(1)
proof (induction rows arbitrary: acc)
  case Nil
  then show ?case by simp
next
  case (Cons rowdict rows)
  then have "dict_to_list fieldnames rowdict = Inr (map snd rowdict)"
    using assms(2) by (simp add: dict_to_list_same_keys)
  with Cons show ?case by simp
qed

lemma distinct_field_names: "distinct field_names"
  by (simp add: field_names_def)

lemma asdict_keys: "map fst (asdict m) = field_names"
  by (simp add: asdict_def field_names_def)

lemma rounded_item_keys: "map fst (map (\<lambda>(key, v). (key, g v)) item) = map fst item"
  by (induction item) auto

lemma rounded_keys:
  "\<forall>item\<in>set (round_float_fields (map asdict ms) n). map fst item = field_names"
proof
  fix item
  assume "item \<in> set (round_float_fields (map asdict ms) n)"
  then obtain m where
    "item = map (\<lambda>(key, v). (key, (case v of VFloat x \<Rightarrow> VFloat (py_round x n) | _ \<Rightarrow> v)))
              (asdict m)"
    by (auto simp: round_float_fields_def)
  then show "map fst item = field_names"
    by (simp only: rounded_item_keys asdict_keys)
qed

lemma write_metrics_files_eq:
  "write_metrics_files ms
     = (None,
        \<lparr>metrics_json = round_float_fields (map asdict ms) 2,
         metrics_csv =
           (if ms = [] then None
            else Some (field_names, map (map snd) (round_float_fields (map asdict ms) 2)))\<rparr>)"
proof (cases ms)
  case Nil
  then show ?thesis by (simp add: write_metrics_files_def round_float_fields_def)
next
  case (Cons m rest)
  let ?data = "round_float_fields (map asdict ms) 2"
  obtain first others where d: "?data = first # others"
    using Cons by (auto simp: round_float_fields_def)
  have keys: "\<forall>item\<in>set ?data. map fst item = field_names" by (rule rounded_keys)
  then have h: "map fst first = field_names" using d by simp
  have "writerows field_names ?data [] = (None, [] @ map (map snd) ?data)"
    using keys distinct_field_names by (rule writerows_same_keys)
  then show ?thesis
    using Cons d h by (simp add: write_metrics_files_def Let_def)
qed

lemma rounded_asdict:
  "map (\<lambda>(key, v). (key, (case v of VFloat x \<Rightarrow> VFloat (py_round x 2) | _ \<Rightarrow> v))) (asdict m)
     = [(''input_path'', VStr (input_path m)),
        (''output_path'', VStr (output_path m)),
        (''frames'', VInt (frames m)),
        (''total_detections'', VInt (total_detections m)),
        (''avg_detections_per_frame'', VFloat (py_round (avg_detections_per_frame m) 2)),
        (''processing_fps'', VFloat (py_round (processing_fps m) 2)),
        (''duration_seconds'', VFloat (py_round (duration_seconds m) 2)),
        (''model'', VStr (model m)),
        (''conf'', VFloat (py_round (conf m) 2)),
        (''imgsz'',
           (case imgsz m of
              None \<Rightarrow> VNone
            | Some (Size n) \<Rightarrow> VInt n
            | Some (Dims h w) \<Rightarrow> VTuple [VInt h, VInt w])),
        (''device'', VStr (device m))]"
proof (cases "imgsz m")
  case None
  then show ?thesis by (simp add: asdict_def)
next
  case (Some s)
  then show ?thesis by (cases s) (simp_all add: asdict_def)
qed

lemma rounded_records:
  "round_float_fields (map asdict ms) 2
     = map (\<lambda>m.
              [(''input_path'', VStr (input_path m)),
               (''output_path'', VStr (output_path m)),
               (''frames'', VInt (frames m)),
               (''total_detections'', VInt (total_detections m)),
               (''avg_detections_per_frame'', VFloat (py_round (avg_detections_per_frame m) 2)),
               (''processing_fps'', VFloat (py_round (processing_fps m) 2)),
               (''duration_seconds'', VFloat (py_round (duration_seconds m) 2)),
               (''model'', VStr (model m)),
               (''conf'', VFloat (py_round (conf m) 2)),
               (''imgsz'',
                  (case imgsz m of
                     None \<Rightarrow> VNone
                   | Some (Size n) \<Rightarrow> VInt n
                   | Some (Dims h w) \<Rightarrow> VTuple [VInt h, VInt w])),
               (''device'', VStr (device m))])
          ms"
  by (simp only: round_float_fields_def map_map comp_def rounded_asdict)

lemma demo_rounds:
  "py_round 0.375 2 = 0.38" "py_round 2.625 2 = 2.62" "py_round 1.125 2 = 1.12"
  "py_round 0.25 2 = 0.25"
  by (simp_all add: py_round_def round_half_even_def Let_def)

text \<open>
  Claim C4: for every list of metrics records, \<^verbatim>\<open>write_metrics_files\<close> raises nothing and
  writes, for each record in order, the fields of \<^verbatim>\<open>VideoMetrics\<close> in the order of their
  declaration: the four float fields rounded to 2 decimal places (the rounded value is a
  multiple of 0.01 within 0.005 of the value in memory), every other field as it is. The
  records are immutable values read by the export, which builds new dictionaries from them.
  The CSV file is written when the list is not empty: its header is the field names of the
  first JSON record, which are the field names of every record, and its rows are the values
  of the JSON records in that order.
\<close>

theorem write_metrics_files_export:
  "(case write_metrics_files ms of
      (err, files) \<Rightarrow>
        err = None
        \<and> metrics_json files
          = map (\<lambda>m.
                  [(''input_path'', VStr (input_path m)),
                   (''output_path'', VStr (output_path m)),
                   (''frames'', VInt (frames m)),
                   (''total_detections'', VInt (total_detections m)),
                   (''avg_detections_per_frame'', VFloat (py_round (avg_detections_per_frame m) 2)),
                   (''processing_fps'', VFloat (py_round (processing_fps m) 2)),
                   (''duration_seconds'', VFloat (py_round (duration_seconds m) 2)),
                   (''model'', VStr (model m)),
                   (''conf'', VFloat (py_round (conf m) 2)),
                   (''imgsz'',
                      (case imgsz m of
                         None \<Rightarrow> VNone
                       | Some (Size n) \<Rightarrow> VInt n
                       | Some (Dims h w) \<Rightarrow> VTuple [VInt h, VInt w])),
                   (''device'', VStr (device m))])
              ms
        \<and> (\<forall>item\<in>set (metrics_json files).
              map fst item
                = [''input_path'', ''output_path'', ''frames'', ''total_detections'',
                   ''avg_detections_per_frame'', ''processing_fps'', ''duration_seconds'',
                   ''model'', ''conf'', ''imgsz'', ''device''])
        \<and> (ms = [] \<longrightarrow> metrics_csv files = None)
        \<and> (ms \<noteq> [] \<longrightarrow>
              metrics_csv files
                = Some (map fst (hd (metrics_json files)), map (map snd) (metrics_json files))))
   \<and> (\<forall>x. \<bar>py_round x 2 - x\<bar> \<le> 1 / 200 \<and> (\<exists>k::int. py_round x 2 = real_of_int k / 100))"
proof -
  let ?data = "round_float_fields (map asdict ms) 2"
  have keys: "\<forall>item\<in>set ?data. map fst item = field_names" by (rule rounded_keys)
  have hd_keys: "ms \<noteq> [] \<longrightarrow> map fst (hd ?data) = field_names"
    using keys by (cases ms) (simp_all add: round_float_fields_def)
  have r: "\<forall>x. \<bar>py_round x 2 - x\<bar> \<le> 1 / 200 \<and> (\<exists>k::int. py_round x 2 = real_of_int k / 100)"
    using py_round_2 by blast
  have "(case write_metrics_files ms of
      (err, files) \<Rightarrow>
        err = None
        \<and> metrics_json files = ?data
        \<and> (\<forall>item\<in>set (metrics_json files). map fst item = field_names)
        \<and> (ms = [] \<longrightarrow> metrics_csv files = None)
        \<and> (ms \<noteq> [] \<longrightarrow>
              metrics_csv files
                = Some (map fst (hd (metrics_json files)), map (map snd) (metrics_json files))))"
    using keys hd_keys by (simp add: write_metrics_files_eq)
  then show ?thesis
    unfolding rounded_records field_names_def using r by blast
qed

theorem write_metrics_files_export_witness:
  "write_metrics_files [demo_metrics]
     = (None,
        \<lparr>metrics_json =
           [[(''input_path'', VStr ''assets/a.mp4''), (''output_path'', VStr ''outputs/a.mp4''),
             (''frames'', VInt 8), (''total_detections'', VInt 3),
             (''avg_detections_per_frame'', VFloat 0.38), (''processing_fps'', VFloat 2.62),
             (''duration_seconds'', VFloat 1.12), (''model'', VStr ''yolov8n.pt''),
             (''conf'', VFloat 0.25), (''imgsz'', VTuple [VInt 480, VInt 672]),
             (''device'', VStr ''cpu'')]],
         metrics_csv =
           Some ([''input_path'', ''output_path'', ''frames'', ''total_detections'',
                  ''avg_detections_per_frame'', ''processing_fps'', ''duration_seconds'',
                  ''model'', ''conf'', ''imgsz'', ''device''],
                 [[VStr ''assets/a.mp4'', VStr ''outputs/a.mp4'', VInt 8, VInt 3, VFloat 0.38,
                   VFloat 2.62, VFloat 1.12, VStr ''yolov8n.pt'', VFloat 0.25,
                   VTuple [VInt 480, VInt 672], VStr ''cpu'']])\<rparr>)
   \<and> write_metrics_files []
     = (None, \<lparr>metrics_json = [], metrics_csv = None\<rparr>)"
proof
  obtain err files where w: "write_metrics_files [demo_metrics] = (err, files)"
    by (cases "write_metrics_files [demo_metrics]")
  have f: "input_path demo_metrics = ''assets/a.mp4''"
    "output_path demo_metrics = ''outputs/a.mp4''" "frames demo_metrics = 8"
    "total_detections demo_metrics = 3" "avg_detections_per_frame demo_metrics = 0.375"
    "processing_fps demo_metrics = 2.625" "duration_seconds demo_metrics = 1.125"
    "model demo_metrics = ''yolov8n.pt''" "conf demo_metrics = 0.25"
    "imgsz demo_metrics = Some (Dims 480 672)" "device demo_metrics = ''cpu''"
    by (simp_all add: demo_metrics_def)
  from write_metrics_files_export [of "[demo_metrics]"]
  have e: "err = None"
    and j: "metrics_json files =
           [[(''input_path'', VStr ''assets/a.mp4''), (''output_path'', VStr ''outputs/a.mp4''),
             (''frames'', VInt 8), (''total_detections'', VInt 3),
             (''avg_detections_per_frame'', VFloat 0.38), (''processing_fps'', VFloat 2.62),
             (''duration_seconds'', VFloat 1.12), (''model'', VStr ''yolov8n.pt''),
             (''conf'', VFloat 0.25), (''imgsz'', VTuple [VInt 480, VInt 672]),
             (''device'', VStr ''cpu'')]]"
    and c: "metrics_csv files
              = Some (map fst (hd (metrics_json files)), map (map snd) (metrics_json files))"
    unfolding w prod.case list.map f demo_rounds option.case imgsz.case by simp_all
  have "files = \<lparr>metrics_json = metrics_json files, metrics_csv = metrics_csv files\<rparr>"
    by simp
  then show "write_metrics_files [demo_metrics]
     = (None,
        \<lparr>metrics_json =
           [[(''input_path'', VStr ''assets/a.mp4''), (''output_path'', VStr ''outputs/a.mp4''),
             (''frames'', VInt 8), (''total_detections'', VInt 3),
             (''avg_detections_per_frame'', VFloat 0.38), (''processing_fps'', VFloat 2.62),
             (''duration_seconds'', VFloat 1.12), (''model'', VStr ''yolov8n.pt''),
             (''conf'', VFloat 0.25), (''imgsz'', VTuple [VInt 480, VInt 672]),
             (''device'', VStr ''cpu'')]],
         metrics_csv =
           Some ([''input_path'', ''output_path'', ''frames'', ''total_detections'',
                  ''avg_detections_per_frame'', ''processing_fps'', ''duration_seconds'',
                  ''model'', ''conf'', ''imgsz'', ''device''],
                 [[VStr ''assets/a.mp4'', VStr ''outputs/a.mp4'', VInt 8, VInt 3, VFloat 0.38,
                   VFloat 2.62, VFloat 1.12, VStr ''yolov8n.pt'', VFloat 0.25,
                   VTuple [VInt 480, VInt 672], VStr ''cpu'']])\<rparr>)"
    unfolding w e c j by simp
  show "write_metrics_files [] = (None, \<lparr>metrics_json = [], metrics_csv = None\<rparr>)"
    by (simp add: write_metrics_files_def round_float_fields_def)
qed

end
